theory Spec2Isabelle
  imports Main "HOL-Library.Sublist" "HOL-Library.AList" "HOL-Library.Multiset"
begin

section \<open>Run-time values\<close>

text \<open>
  A value that a promise is rejected with, or that \<^verbatim>\<open>throw\<close> raises. The program meets
  two kinds: \<^verbatim>\<open>Error\<close> objects, which carry a \<^verbatim>\<open>message\<close> property (the errors of
  ffprobe, of ffmpeg, of axios and of the file system), and the bare string that
  \<^verbatim>\<open>getVideoResolution\<close> rejects with. Reading \<^verbatim>\<open>.message\<close> of a string primitive gives
  \<^verbatim>\<open>undefined\<close>, here \<open>None\<close>.
\<close>

datatype js_thrown = JsError string | JsString string

fun message :: "js_thrown \<Rightarrow> string option" where
  "message (JsError m) = Some m"
| "message (JsString s) = None"

text \<open>
  The result of \<^verbatim>\<open>parseInt\<close> is a number or \<^verbatim>\<open>NaN\<close>; \<open>None\<close> stands for \<^verbatim>\<open>NaN\<close>.
  Every comparison with \<^verbatim>\<open>NaN\<close> is false, \<^verbatim>\<open>===\<close> included. The source height is a
  number that passed a truthiness test, hence never \<^verbatim>\<open>NaN\<close>; pixel heights are whole
  numbers, so it is an \<open>int\<close>.
\<close>

definition js_le :: "int option \<Rightarrow> int \<Rightarrow> bool" where
  "js_le a b = (case a of None \<Rightarrow> False | Some v \<Rightarrow> v \<le> b)"

definition js_strict_eq :: "int option \<Rightarrow> int \<Rightarrow> bool" where
  "js_strict_eq a b = (case a of None \<Rightarrow> False | Some v \<Rightarrow> v = b)"

subsection \<open>Strings: \<^verbatim>\<open>split\<close>, indexing, \<^verbatim>\<open>parseInt\<close>, number to string\<close>

text \<open>\<^verbatim>\<open>s.split(sep)\<close> for a separator of one character: never an empty array.\<close>

fun split_chr :: "char \<Rightarrow> string \<Rightarrow> string list" where
  "split_chr sep [] = [[]]"
| "split_chr sep (c # cs) =
     (if c = sep then [] # split_chr sep cs
      else (case split_chr sep cs of
              [] \<Rightarrow> [[c]]
            | p # ps \<Rightarrow> (c # p) # ps))"

text \<open>\<^verbatim>\<open>xs[i]\<close>: \<^verbatim>\<open>undefined\<close> (\<open>None\<close>) out of range.\<close>

definition js_index :: "'a list \<Rightarrow> nat \<Rightarrow> 'a option" where
  "js_index xs i = (if i < length xs then Some (xs ! i) else None)"

definition digit_value :: "char \<Rightarrow> nat option" where
  "digit_value = map_of
     [(CHR ''0'', 0), (CHR ''1'', 1), (CHR ''2'', 2), (CHR ''3'', 3), (CHR ''4'', 4),
      (CHR ''5'', 5), (CHR ''6'', 6), (CHR ''7'', 7), (CHR ''8'', 8), (CHR ''9'', 9),
      (CHR ''a'', 10), (CHR ''b'', 11), (CHR ''c'', 12), (CHR ''d'', 13), (CHR ''e'', 14),
      (CHR ''f'', 15), (CHR ''A'', 10), (CHR ''B'', 11), (CHR ''C'', 12), (CHR ''D'', 13),
      (CHR ''E'', 14), (CHR ''F'', 15)]"

definition radix_digit :: "nat \<Rightarrow> char \<Rightarrow> bool" where
  "radix_digit r c = (case digit_value c of None \<Rightarrow> False | Some d \<Rightarrow> d < r)"

definition digits_value :: "nat \<Rightarrow> string \<Rightarrow> nat" where
  "digits_value r ds =
     foldl (\<lambda>acc c. case digit_value c of None \<Rightarrow> acc | Some d \<Rightarrow> acc * r + d) 0 ds"

definition js_space :: "char \<Rightarrow> bool" where
  "js_space c = (c \<in> set [CHR '' '', CHR 0x09, CHR 0x0A, CHR 0x0B, CHR 0x0C, CHR 0x0D])"

text \<open>
  \<^verbatim>\<open>parseInt(s)\<close> with no radix: leading white space is skipped (the ASCII part of it
  here), then an optional sign, then an optional \<^verbatim>\<open>0x\<close> or \<^verbatim>\<open>0X\<close> that selects radix 16,
  then the longest run of digits of the radix; no digit at all gives \<^verbatim>\<open>NaN\<close>. Whatever
  follows the digits is ignored.
\<close>

definition parseInt :: "string \<Rightarrow> int option" where
  "parseInt s =
     (let t = dropWhile js_space s;
          neg = (case t of c # _ \<Rightarrow> c = CHR ''-'' | [] \<Rightarrow> False);
          u = (case t of c # r \<Rightarrow> if c = CHR ''-'' \<or> c = CHR ''+'' then r else t | [] \<Rightarrow> t);
          hex = (take 2 u = ''0x'' \<or> take 2 u = ''0X'');
          radix = (if hex then 16 else 10);
          ds = takeWhile (radix_digit radix) (if hex then drop 2 u else u)
      in if ds = [] then None
         else Some ((if neg then - 1 else 1) * int (digits_value radix ds)))"

text \<open>
  \<^verbatim>\<open>parseInt(x)\<close> of an array element: \<^verbatim>\<open>undefined\<close> is first turned into the string
  \<^verbatim>\<open>"undefined"\<close>, which has no digit.
\<close>

definition parseInt_opt :: "string option \<Rightarrow> int option" where
  "parseInt_opt x = (case x of None \<Rightarrow> parseInt ''undefined'' | Some s \<Rightarrow> parseInt s)"

text \<open>
  The decimal digits of a natural number, as a template literal prints the value of
  \<^verbatim>\<open>Date.now()\<close>.
\<close>

fun string_of_nat :: "nat \<Rightarrow> string" where
  "string_of_nat n =
     (if n < 10 then [''0123456789'' ! n]
      else string_of_nat (n div 10) @ [''0123456789'' ! (n mod 10)])"

declare string_of_nat.simps [simp del]

section \<open>The catalog and the ladder selector\<close>

text \<open>The interface \<^verbatim>\<open>Resolution\<close>; its field \<^verbatim>\<open>size\<close> is \<open>size_wh\<close> here.\<close>

record Resolution =
  name :: string
  size_wh :: string
  bitrate :: string

definition resolutions :: "Resolution list" where
  "resolutions =
     [\<lparr>name = ''1080p'', size_wh = ''1920x1080'', bitrate = ''5000k''\<rparr>,
      \<lparr>name = ''720p'', size_wh = ''1280x720'', bitrate = ''2500k''\<rparr>,
      \<lparr>name = ''480p'', size_wh = ''854x480'', bitrate = ''1000k''\<rparr>,
      \<lparr>name = ''360p'', size_wh = ''640x360'', bitrate = ''600k''\<rparr>]"

text \<open>
  The constant \<^verbatim>\<open>height\<close> of the filter's callback:
  \<^verbatim>\<open>parseInt(size.split("x")[1])\<close>.
\<close>

definition frame_height :: "Resolution \<Rightarrow> int option" where
  "frame_height r = parseInt_opt (js_index (split_chr CHR ''x'' (size_wh r)) 1)"

text \<open>
  The filter of \<^verbatim>\<open>transcodeVideo\<close>, with the predicate as it is written:
  \<^verbatim>\<open>height <= inputHeight || height === inputHeight\<close>.
\<close>

definition availableResolutions :: "int \<Rightarrow> Resolution list" where
  "availableResolutions inputHeight =
     filter (\<lambda>r. js_le (frame_height r) inputHeight \<or> js_strict_eq (frame_height r) inputHeight)
       resolutions"

text \<open>
  The selector of the specification, section 4.2: the catalog filtered by the single
  comparison \<open>h \<le> H\<close>.
\<close>

definition selectLadder_le :: "int \<Rightarrow> Resolution list" where
  "selectLadder_le sourceHeight = filter (\<lambda>r. js_le (frame_height r) sourceHeight) resolutions"

section \<open>The world outside the program\<close>

text \<open>
  One stream descriptor of the metadata that ffprobe reports; both fields are optional in
  the library's type.
\<close>

record FfprobeStream =
  codec_type :: "string option"
  height :: "int option"

text \<open>
  The calls the program makes to its collaborators, in the order it makes them:
  \<^verbatim>\<open>ffmpeg.ffprobe\<close>, \<^verbatim>\<open>fs.mkdirSync\<close>, one ffmpeg run (input, scale, bitrate, output
  path), the POST to the pinning service, \<^verbatim>\<open>fs.unlinkSync\<close>, and the
  \<^verbatim>\<open>console.error\<close> of the clean-up's \<^verbatim>\<open>catch\<close>. The other console lines are not
  recorded.
\<close>

datatype event =
    Ffprobe string
  | Mkdir string
  | Ffmpeg string string string string
  | PinFile string
  | Unlink string
  | CleanupError js_thrown

fun is_mkdir :: "event \<Rightarrow> bool" where
  "is_mkdir (Mkdir p) = True"
| "is_mkdir ev = False"

fun is_ffmpeg :: "event \<Rightarrow> bool" where
  "is_ffmpeg (Ffmpeg i s b p) = True"
| "is_ffmpeg ev = False"

fun is_pin :: "event \<Rightarrow> bool" where
  "is_pin (PinFile p) = True"
| "is_pin ev = False"

fun is_unlink :: "event \<Rightarrow> bool" where
  "is_unlink (Unlink p) = True"
| "is_unlink ev = False"

text \<open>
  The state threaded through a request: the paths that exist (what \<^verbatim>\<open>fs.existsSync\<close>
  answers) and the calls made so far.
\<close>

record world =
  fs :: "string set"
  events :: "event list"

text \<open>
  What the collaborators answer during one request. \<open>ffprobe\<close> is the callback's
  \<^verbatim>\<open>(err, metadata)\<close>: an error, or the stream list. \<open>now_request\<close> is the reading of
  \<^verbatim>\<open>Date.now()\<close> in the handler and \<open>now_job i\<close> the reading in the \<open>i\<close>-th job of the
  ladder. \<open>ffmpeg_error i\<close> is the terminal signal of the \<open>i\<close>-th job (\<open>None\<close> for
  \<^verbatim>\<open>end\<close>, \<open>Some err\<close> for \<^verbatim>\<open>error\<close>) and \<open>ffmpeg_finish i\<close> the time at which it
  arrives; jobs that finish at the same time settle in launch order. \<open>pinFileToIPFS k p\<close>
  is the outcome of the \<open>k\<close>-th POST, of the file at \<open>p\<close>: an error, or the
  \<^verbatim>\<open>IpfsHash\<close> of the response. \<open>mkdir_error\<close> is what \<^verbatim>\<open>fs.mkdirSync\<close> throws in a
  directory that exists (no permission, no space), if it does, and \<open>unlink_error\<close> what
  \<^verbatim>\<open>fs.unlinkSync\<close> throws, if it does.
\<close>

record env =
  ffprobe :: "string \<Rightarrow> js_thrown + FfprobeStream list"
  now_request :: nat
  now_job :: "nat \<Rightarrow> nat"
  ffmpeg_error :: "nat \<Rightarrow> js_thrown option"
  ffmpeg_finish :: "nat \<Rightarrow> nat"
  pinFileToIPFS :: "nat \<Rightarrow> string \<Rightarrow> js_thrown + string"
  mkdir_error :: "js_thrown option"
  unlink_error :: "js_thrown option"

text \<open>
  \<^verbatim>\<open>path.join(dir, segment)\<close> for a directory in normal form and a single segment
  without separators, the only way the program calls it.
\<close>

definition path_join :: "string \<Rightarrow> string \<Rightarrow> string" where
  "path_join dir segment = dir @ ''/'' @ segment"

text \<open>
  The directory that holds a path: what precedes its last separator (for a path that has
  one, and not at the root).
\<close>

definition dirname :: "string \<Rightarrow> string" where
  "dirname p = rev (drop 1 (dropWhile (\<lambda>c. c \<noteq> CHR ''/'') (rev p)))"

text \<open>
  \<^verbatim>\<open>fs.mkdirSync(p)\<close>, not recursive, for a path that does not exist: it throws
  \<^verbatim>\<open>ENOENT\<close> when the directory that holds \<open>p\<close> does not exist, it throws what the
  environment says otherwise, and it creates \<open>p\<close> when it does not throw. The result is
  the error thrown, if any.
\<close>

definition mkdirSync :: "env \<Rightarrow> string \<Rightarrow> world \<Rightarrow> js_thrown option \<times> world" where
  "mkdirSync e p w =
     (let w' = w\<lparr>events := events w @ [Mkdir p]\<rparr> in
      if dirname p \<notin> fs w
      then (Some (JsError (''ENOENT: no such file or directory, mkdir '' @ CHR 0x27 # p @ [CHR 0x27])), w')
      else (case mkdir_error e of
              Some err \<Rightarrow> (Some err, w')
            | None \<Rightarrow> (None, w'\<lparr>fs := insert p (fs w)\<rparr>)))"

section \<open>Probe\<close>

definition no_resolution :: js_thrown where
  "no_resolution = JsString ''Could not determine video resolution.''"

text \<open>
  \<^verbatim>\<open>getVideoResolution\<close>. The test \<^verbatim>\<open>videoStream && videoStream.height\<close> is one of
  truthiness: a missing height and the height 0 both fail it.
\<close>

definition getVideoResolution :: "env \<Rightarrow> string \<Rightarrow> world \<Rightarrow> (js_thrown + int) \<times> world" where
  "getVideoResolution e filePath w =
     (let w' = w\<lparr>events := events w @ [Ffprobe filePath]\<rparr> in
      case ffprobe e filePath of
        Inl err \<Rightarrow> (Inl err, w')
      | Inr streams \<Rightarrow>
          (case find (\<lambda>s. codec_type s = Some ''video'') streams of
             None \<Rightarrow> (Inl no_resolution, w')
           | Some videoStream \<Rightarrow>
               (case height videoStream of
                  None \<Rightarrow> (Inl no_resolution, w')
                | Some h \<Rightarrow> if h \<noteq> 0 then (Inr h, w') else (Inl no_resolution, w'))))"

section \<open>Encoding: the jobs and their join\<close>

text \<open>One promise of the \<^verbatim>\<open>map\<close> in \<^verbatim>\<open>transcodeVideo\<close>: its place in the ladder, the
  rendition, and the two constants it computes before it starts ffmpeg.\<close>

record job =
  job_index :: nat
  rendition :: Resolution
  outputFileName :: string
  outputFilePath :: string

definition new_job :: "env \<Rightarrow> string \<Rightarrow> nat \<times> Resolution \<Rightarrow> job" where
  "new_job e outputFolder ir =
     (let timestamp = now_job e (fst ir);
          fileName = ''video_'' @ name (snd ir) @ ''_'' @ string_of_nat timestamp @ ''.mp4''
      in \<lparr>job_index = fst ir, rendition = snd ir, outputFileName = fileName,
          outputFilePath = path_join outputFolder fileName\<rparr>)"

definition run_event :: "string \<Rightarrow> job \<Rightarrow> event" where
  "run_event inputFile j =
     Ffmpeg inputFile (size_wh (rendition j)) (bitrate (rendition j)) (outputFilePath j)"

text \<open>\<^verbatim>\<open>Promise.all\<close> rejects with the first rejection it sees, in the order in which the
  promises settle.\<close>

fun first_rejection :: "js_thrown option list \<Rightarrow> js_thrown option" where
  "first_rejection [] = None"
| "first_rejection (Some err # rest) = Some err"
| "first_rejection (None # rest) = first_rejection rest"

text \<open>
  The fan-out and the join of \<^verbatim>\<open>transcodeVideo\<close> (from \<^verbatim>\<open>transcodedFiles = []\<close> to the
  \<^verbatim>\<open>return\<close>), for any ladder. Every job is started at once, in ladder order. The jobs
  settle in the order of \<open>ffmpeg_finish\<close>; a job that ends pushes its \<^verbatim>\<open>{name, path}\<close>, so
  the array is in completion order. A job that ends has written its output file, also
  when the join has already been rejected: nothing cancels it.
\<close>

definition transcode_jobs ::
  "env \<Rightarrow> string \<Rightarrow> string \<Rightarrow> Resolution list \<Rightarrow> world
    \<Rightarrow> (js_thrown + (string \<times> string) list) \<times> world" where
  "transcode_jobs e inputFile outputFolder ladder w =
     (let jobs = map (new_job e outputFolder) (enumerate 0 ladder);
          ended = (\<lambda>j. ffmpeg_error e (job_index j) = None);
          w' = w\<lparr>fs := fs w \<union> set (map outputFilePath (filter ended jobs)),
                 events := events w @ map (run_event inputFile) jobs\<rparr>;
          settled = sort_key (\<lambda>j. ffmpeg_finish e (job_index j)) jobs;
          transcodedFiles = map (\<lambda>j. (outputFileName j, outputFilePath j)) (filter ended settled)
      in case first_rejection (map (\<lambda>j. ffmpeg_error e (job_index j)) settled) of
           Some err \<Rightarrow> (Inl err, w')
         | None \<Rightarrow> (Inr transcodedFiles, w'))"

text \<open>
  \<^verbatim>\<open>transcodeVideo\<close>: the folder is created when it does not exist, and an error thrown
  by \<^verbatim>\<open>fs.mkdirSync\<close> rejects the promise before any job is started.
\<close>

definition transcodeVideo ::
  "env \<Rightarrow> string \<Rightarrow> string \<Rightarrow> int \<Rightarrow> world \<Rightarrow> (js_thrown + (string \<times> string) list) \<times> world" where
  "transcodeVideo e inputFile outputFolder inputHeight w =
     (case (if outputFolder \<notin> fs w then mkdirSync e outputFolder w else (None, w)) of
        (Some err, w') \<Rightarrow> (Inl err, w')
      | (None, w') \<Rightarrow>
          transcode_jobs e inputFile outputFolder (availableResolutions inputHeight) w')"

section \<open>Publishing\<close>

text \<open>The number of POSTs made so far.\<close>

definition pin_count :: "world \<Rightarrow> nat" where
  "pin_count w = length (filter is_pin (events w))"

text \<open>\<^verbatim>\<open>uploadToPinata\<close>: one POST; its \<^verbatim>\<open>catch\<close> logs and throws the same error again.\<close>

definition uploadToPinata :: "env \<Rightarrow> string \<Rightarrow> world \<Rightarrow> (js_thrown + string) \<times> world" where
  "uploadToPinata e filePath w =
     (pinFileToIPFS e (pin_count w) filePath, w\<lparr>events := events w @ [PinFile filePath]\<rparr>)"

text \<open>
  The \<^verbatim>\<open>for ... of\<close> loop of the handler over \<^verbatim>\<open>transcodedFiles\<close>. The object
  \<^verbatim>\<open>ipfsCIDs\<close> is an association list in insertion order, the order of the keys of an
  object whose keys are not numbers (the keys here start with \<^verbatim>\<open>video_\<close>); assigning to a
  key that is present replaces its value in place, as \<open>AList.update\<close> does. An entry
  \<^verbatim>\<open>name: {videoCID: cid}\<close> is the pair \<open>(name, cid)\<close>.
\<close>

fun upload_all ::
  "env \<Rightarrow> (string \<times> string) list \<Rightarrow> (string \<times> string) list \<Rightarrow> world
    \<Rightarrow> (js_thrown + (string \<times> string) list) \<times> world" where
  "upload_all e [] ipfsCIDs w = (Inr ipfsCIDs, w)"
| "upload_all e (file # rest) ipfsCIDs w =
     (case uploadToPinata e (snd file) w of
        (Inl err, w') \<Rightarrow> (Inl err, w')
      | (Inr cid, w') \<Rightarrow> upload_all e rest (AList.update (fst file) cid ipfsCIDs) w')"

section \<open>The handler of \<^verbatim>\<open>POST /upload\<close>\<close>

text \<open>
  A JSON body: \<^verbatim>\<open>{error, details}\<close>, where a \<^verbatim>\<open>details\<close> that is \<^verbatim>\<open>undefined\<close> is left
  out by \<^verbatim>\<open>JSON.stringify\<close> (\<open>None\<close>), or \<^verbatim>\<open>{message, files}\<close>.
\<close>

datatype body = ErrorBody string "string option" | FilesBody string "(string \<times> string) list"

record response =
  status :: nat
  body :: body

text \<open>The \<^verbatim>\<open>try\<close> block: probe, transcode, publish; the first error ends it.\<close>

definition upload_try ::
  "env \<Rightarrow> string \<Rightarrow> string \<Rightarrow> world \<Rightarrow> (js_thrown + (string \<times> string) list) \<times> world" where
  "upload_try e outputFolder inputFile w =
     (case getVideoResolution e inputFile w of
        (Inl err, w1) \<Rightarrow> (Inl err, w1)
      | (Inr inputHeight, w1) \<Rightarrow>
          (case transcodeVideo e inputFile outputFolder inputHeight w1 of
             (Inl err, w2) \<Rightarrow> (Inl err, w2)
           | (Inr transcodedFiles, w2) \<Rightarrow> upload_all e transcodedFiles [] w2))"

text \<open>The response of the end of the \<^verbatim>\<open>try\<close> block, or of the \<^verbatim>\<open>catch\<close>.\<close>

definition respond :: "js_thrown + (string \<times> string) list \<Rightarrow> response" where
  "respond r =
     (case r of
        Inr ipfsCIDs \<Rightarrow> \<lparr>status = 200, body = FilesBody ''Processing complete'' ipfsCIDs\<rparr>
      | Inl err \<Rightarrow> \<lparr>status = 500, body = ErrorBody ''Processing failed'' (message err)\<rparr>)"

text \<open>The \<^verbatim>\<open>finally\<close> block.\<close>

definition cleanup :: "env \<Rightarrow> string \<Rightarrow> world \<Rightarrow> world" where
  "cleanup e inputFile w =
     (if inputFile \<in> fs w
      then (case unlink_error e of
              None \<Rightarrow> w\<lparr>fs := fs w - {inputFile}, events := events w @ [Unlink inputFile]\<rparr>
            | Some cleanupError \<Rightarrow>
                w\<lparr>events := events w @ [Unlink inputFile, CleanupError cleanupError]\<rparr>)
      else w)"

text \<open>
  The handler. \<open>outputDir\<close> is the module's constant \<^verbatim>\<open>path.resolve("output")\<close>;
  \<open>file\<close> is \<^verbatim>\<open>req.file\<close>, reduced to its \<^verbatim>\<open>path\<close>.
\<close>

definition upload_handler :: "string \<Rightarrow> env \<Rightarrow> string option \<Rightarrow> world \<Rightarrow> response \<times> world" where
  "upload_handler outputDir e file w =
     (case file of
        None \<Rightarrow> (\<lparr>status = 400, body = ErrorBody ''No file uploaded'' None\<rparr>, w)
      | Some inputFile \<Rightarrow>
          (let outputFolder = path_join outputDir (string_of_nat (now_request e));
               r = upload_try e outputFolder inputFile w
           in (respond (fst r), cleanup e inputFile (snd r))))"

section \<open>A concrete request\<close>

text \<open>
  An upload of a 1080-pixel video with an audio stream first; the jobs are created within
  the same millisecond and finish in the reverse of their launch order; every collaborator
  succeeds.
\<close>

definition example_streams :: "FfprobeStream list" where
  "example_streams =
     [\<lparr>codec_type = Some ''audio'', height = None\<rparr>,
      \<lparr>codec_type = Some ''video'', height = Some 1080\<rparr>]"

definition example_env :: env where
  "example_env =
     \<lparr>ffprobe = (\<lambda>p. Inr example_streams),
      now_request = 1000,
      now_job = (\<lambda>i. 2000),
      ffmpeg_error = (\<lambda>i. None),
      ffmpeg_finish = (\<lambda>i. 10 - i),
      pinFileToIPFS = (\<lambda>k p. Inr (''Qm'' @ string_of_nat k)),
      mkdir_error = None,
      unlink_error = None\<rparr>"

definition example_world :: world where
  "example_world = \<lparr>fs = {''/srv/output'', ''uploads/a'', ''uploads/b''}, events = []\<rparr>"

text \<open>The same uploads when the output root has been removed.\<close>

definition example_world_no_root :: world where
  "example_world_no_root = \<lparr>fs = {''uploads/a'', ''uploads/b''}, events = []\<rparr>"

text \<open>The \<^verbatim>\<open>transcodedFiles\<close> of that request, in completion order.\<close>

definition example_files :: "(string \<times> string) list" where
  "example_files =
     [(''video_360p_2000.mp4'', ''/srv/output/1000/video_360p_2000.mp4''),
      (''video_480p_2000.mp4'', ''/srv/output/1000/video_480p_2000.mp4''),
      (''video_720p_2000.mp4'', ''/srv/output/1000/video_720p_2000.mp4''),
      (''video_1080p_2000.mp4'', ''/srv/output/1000/video_1080p_2000.mp4'')]"

text \<open>The state in which the publishing loop of that request starts.\<close>

definition example_world_encoded :: world where
  "example_world_encoded =
     \<lparr>fs = {''/srv/output'', ''uploads/a'', ''uploads/b'', ''/srv/output/1000'',
             ''/srv/output/1000/video_1080p_2000.mp4'', ''/srv/output/1000/video_720p_2000.mp4'',
             ''/srv/output/1000/video_480p_2000.mp4'', ''/srv/output/1000/video_360p_2000.mp4''},
      events =
        [Ffprobe ''uploads/a'', Mkdir ''/srv/output/1000'',
         Ffmpeg ''uploads/a'' ''1920x1080'' ''5000k'' ''/srv/output/1000/video_1080p_2000.mp4'',
         Ffmpeg ''uploads/a'' ''1280x720'' ''2500k'' ''/srv/output/1000/video_720p_2000.mp4'',
         Ffmpeg ''uploads/a'' ''854x480'' ''1000k'' ''/srv/output/1000/video_480p_2000.mp4'',
         Ffmpeg ''uploads/a'' ''640x360'' ''600k'' ''/srv/output/1000/video_360p_2000.mp4'']\<rparr>"

text \<open>Variations: the jobs of 720p and 480p fail, 480p first.\<close>

definition example_env_ffmpeg_fails :: env where
  "example_env_ffmpeg_fails =
     example_env\<lparr>ffmpeg_error :=
       (\<lambda>i. if i = 1 then Some (JsError ''720p failed'')
            else if i = 2 then Some (JsError ''480p failed'') else None)\<rparr>"

text \<open>The third POST is refused.\<close>

definition example_env_pin_fails :: env where
  "example_env_pin_fails =
     example_env\<lparr>pinFileToIPFS :=
       (\<lambda>k p. if k = 2 then Inl (JsError ''Request failed with status code 401'')
              else Inr (''Qm'' @ string_of_nat k))\<rparr>"

text \<open>The only stream is a video stream whose height is 0.\<close>

definition example_env_zero_height :: env where
  "example_env_zero_height =
     example_env\<lparr>ffprobe := (\<lambda>p. Inr [\<lparr>codec_type = Some ''video'', height = Some 0\<rparr>])\<rparr>"

text \<open>The inspection call itself fails.\<close>

definition example_env_ffprobe_fails :: env where
  "example_env_ffprobe_fails =
     example_env\<lparr>ffprobe := (\<lambda>p. Inl (JsError ''ffprobe exited with code 1''))\<rparr>"

text \<open>
  A second request, for a 720-pixel upload, for which \<^verbatim>\<open>Date.now()\<close> reads the same
  values as for the first.
\<close>

definition example_env_720 :: env where
  "example_env_720 =
     example_env\<lparr>ffprobe := (\<lambda>p. Inr [\<lparr>codec_type = Some ''video'', height = Some 720\<rparr>]),
                 ffmpeg_finish := (\<lambda>i. i)\<rparr>"

text \<open>The source is 300 pixels high.\<close>

definition example_env_small :: env where
  "example_env_small =
     example_env\<lparr>ffprobe := (\<lambda>p. Inr [\<lparr>codec_type = Some ''video'', height = Some 300\<rparr>])\<rparr>"

section \<open>Properties of the ladder selector\<close>

lemma frame_height_resolutions:
  "map frame_height resolutions = [Some 1080, Some 720, Some 480, Some 360]"
  by code_simp

lemma frame_height_catalog:
  "frame_height \<lparr>name = ''1080p'', size_wh = ''1920x1080'', bitrate = ''5000k''\<rparr> = Some 1080"
  "frame_height \<lparr>name = ''720p'', size_wh = ''1280x720'', bitrate = ''2500k''\<rparr> = Some 720"
  "frame_height \<lparr>name = ''480p'', size_wh = ''854x480'', bitrate = ''1000k''\<rparr> = Some 480"
  "frame_height \<lparr>name = ''360p'', size_wh = ''640x360'', bitrate = ''600k''\<rparr> = Some 360"
  using frame_height_resolutions by (simp_all add: resolutions_def)

lemma js_le_or_strict_eq: "(js_le h H \<or> js_strict_eq h H) = js_le h H"
  by (cases h) (auto simp: js_le_def js_strict_eq_def)

lemma availableResolutions_le:
  "availableResolutions H = filter (\<lambda>r. js_le (frame_height r) H) resolutions"
  by (simp add: availableResolutions_def js_le_or_strict_eq)

lemma availableResolutions_cases:
  "availableResolutions H =
     (if 1080 \<le> H then resolutions
      else if 720 \<le> H then drop 1 resolutions
      else if 480 \<le> H then drop 2 resolutions
      else if 360 \<le> H then drop 3 resolutions
      else [])"
  by (simp add: availableResolutions_le resolutions_def frame_height_catalog js_le_def)

text \<open>
  C1. The frame heights of the catalog are 1080, 720, 480 and 360. For every source height
  \<open>H\<close>, an entry of the catalog with frame height \<open>h\<close> is in the ladder if and only if
  \<open>h \<le> H\<close>, and the ladder keeps the catalog's order (it is a subsequence of the catalog,
  whose names are 1080p, 720p, 480p, 360p in this order). For \<open>H = 1080\<close> the ladder is the
  whole catalog, for \<open>H = 500\<close> it is 480p, 360p, and for \<open>H = 100\<close> it is empty.
\<close>

theorem ladder_selector:
  "map frame_height resolutions = [Some 1080, Some 720, Some 480, Some 360]
   \<and> (\<forall>r \<in> set resolutions. \<forall>h. frame_height r = Some h \<longrightarrow>
         (r \<in> set (availableResolutions H) \<longleftrightarrow> h \<le> H))
   \<and> subseq (availableResolutions H) resolutions
   \<and> map name resolutions = [''1080p'', ''720p'', ''480p'', ''360p'']
   \<and> map name (availableResolutions 1080) = [''1080p'', ''720p'', ''480p'', ''360p'']
   \<and> availableResolutions 500 =
        [\<lparr>name = ''480p'', size_wh = ''854x480'', bitrate = ''1000k''\<rparr>,
         \<lparr>name = ''360p'', size_wh = ''640x360'', bitrate = ''600k''\<rparr>]
   \<and> availableResolutions 100 = []"
proof -
  have member: "\<forall>r \<in> set resolutions. \<forall>h. frame_height r = Some h \<longrightarrow>
      (r \<in> set (availableResolutions H) \<longleftrightarrow> h \<le> H)"
    by (auto simp: availableResolutions_le js_le_def)
  have order: "subseq (availableResolutions H) resolutions"
    by (simp add: availableResolutions_def)
  have names: "map name resolutions = [''1080p'', ''720p'', ''480p'', ''360p'']"
    by (simp add: resolutions_def)
  have full: "map name (availableResolutions 1080) = [''1080p'', ''720p'', ''480p'', ''360p'']"
    by (simp add: availableResolutions_cases resolutions_def)
  have two: "availableResolutions 500 =
        [\<lparr>name = ''480p'', size_wh = ''854x480'', bitrate = ''1000k''\<rparr>,
         \<lparr>name = ''360p'', size_wh = ''640x360'', bitrate = ''600k''\<rparr>]"
    by (simp add: availableResolutions_cases resolutions_def)
  have none: "availableResolutions 100 = []"
    by (simp add: availableResolutions_cases)
  from frame_height_resolutions member order names full two none show ?thesis
    by blast
qed

theorem ladder_selector_witness:
  "\<lparr>name = ''720p'', size_wh = ''1280x720'', bitrate = ''2500k''\<rparr> \<in> set resolutions
   \<and> frame_height \<lparr>name = ''720p'', size_wh = ''1280x720'', bitrate = ''2500k''\<rparr> = Some 720
   \<and> \<lparr>name = ''720p'', size_wh = ''1280x720'', bitrate = ''2500k''\<rparr> \<in> set (availableResolutions 720)
   \<and> \<lparr>name = ''720p'', size_wh = ''1280x720'', bitrate = ''2500k''\<rparr> \<notin> set (availableResolutions 719)"
  using ladder_selector [of 720] ladder_selector [of 719]
  by (simp add: resolutions_def frame_height_catalog)

text \<open>
  C9. The predicate as the code writes it, \<^verbatim>\<open>height <= inputHeight || height === inputHeight\<close>,
  has the same value as the single comparison \<^verbatim>\<open>height <= inputHeight\<close>, for every height
  (also \<^verbatim>\<open>NaN\<close>) and every source height; so the selector of the code and the selector
  with the plain comparison return the same ladder on every input.
\<close>

theorem filter_predicate_equivalence:
  "(js_le h H \<or> js_strict_eq h H) = js_le h H
   \<and> availableResolutions H = selectLadder_le H"
  by (simp add: js_le_or_strict_eq availableResolutions_le selectLadder_le_def)

theorem filter_predicate_equivalence_witness:
  "js_le (Some 720) 720 \<and> js_strict_eq (Some 720) 720
   \<and> availableResolutions 720 = selectLadder_le 720
   \<and> map name (selectLadder_le 720) = [''720p'', ''480p'', ''360p'']"
proof -
  have "availableResolutions 720 = selectLadder_le 720"
    using filter_predicate_equivalence [of "Some 720" 720] by simp
  then have "selectLadder_le 720 = drop 1 resolutions"
    by (simp add: availableResolutions_cases)
  then show ?thesis
    by (simp add: js_le_def js_strict_eq_def availableResolutions_cases resolutions_def)
qed

section \<open>Facts about the jobs and their join\<close>

lemma first_rejection_None: "first_rejection xs = None \<longleftrightarrow> (\<forall>x \<in> set xs. x = None)"
  by (induction xs rule: first_rejection.induct) auto

lemma first_rejection_sorted:
  "sorted (map k xs) \<Longrightarrow> first_rejection (map g xs) = Some err \<Longrightarrow>
     \<exists>x \<in> set xs. g x = Some err \<and> (\<forall>y \<in> set xs. g y \<noteq> None \<longrightarrow> k x \<le> k y)"
proof (induction xs)
  case Nil
  then show ?case by simp
next
  case (Cons a xs)
  show ?case
  proof (cases "g a")
    case None
    with Cons.prems have "first_rejection (map g xs) = Some err" and "sorted (map k xs)"
      by simp_all
    with Cons.IH obtain x where "x \<in> set xs" "g x = Some err"
      "\<forall>y \<in> set xs. g y \<noteq> None \<longrightarrow> k x \<le> k y" by blast
    with None show ?thesis by auto
  next
    case (Some b)
    with Cons.prems have "b = err" by simp
    with Some Cons.prems show ?thesis by auto
  qed
qed

lemma first_rejection_exists:
  "\<exists>x \<in> set xs. x \<noteq> None \<Longrightarrow> \<exists>err. first_rejection xs = Some err"
  using first_rejection_None [of xs] by (cases "first_rejection xs") auto

lemma new_job_sel [simp]:
  "job_index (new_job e folder ir) = fst ir"
  "rendition (new_job e folder ir) = snd ir"
  "outputFileName (new_job e folder ir) =
     ''video_'' @ name (snd ir) @ ''_'' @ string_of_nat (now_job e (fst ir)) @ ''.mp4''"
  "outputFilePath (new_job e folder ir) = path_join folder (outputFileName (new_job e folder ir))"
  by (simp_all add: new_job_def Let_def)

lemma job_index_new_jobs:
  "map job_index (map (new_job e folder) (enumerate n ladder)) = [n..<n + length ladder]"
  by (simp add: comp_def)

lemma rendition_new_jobs:
  "map rendition (map (new_job e folder) (enumerate n ladder)) = ladder"
  by (simp add: comp_def)

lemma set_job_index:
  "job_index ` set (map (new_job e folder) (enumerate 0 ladder)) = {0..<length ladder}"
  using job_index_new_jobs [of e folder 0 ladder] 
  by (metis add_0 set_map set_upt)

lemma transcode_jobs_success:
  assumes "\<forall>i < length ladder. ffmpeg_error e i = None"
  shows "fst (transcode_jobs e inputFile outputFolder ladder w) =
          Inr (map (\<lambda>j. (outputFileName j, outputFilePath j))
                 (sort_key (\<lambda>j. ffmpeg_finish e (job_index j))
                    (map (new_job e outputFolder) (enumerate 0 ladder))))"
proof -
  define jobs where "jobs = map (new_job e outputFolder) (enumerate 0 ladder)"
  define settled where "settled = sort_key (\<lambda>j. ffmpeg_finish e (job_index j)) jobs"
  have idx: "job_index ` set settled = {0..<length ladder}"
    unfolding settled_def jobs_def using set_job_index by simp
  have "\<forall>j \<in> set settled. job_index j < length ladder"
    using idx by (metis atLeastLessThan_iff imageI)
  then have ok: "\<forall>j \<in> set settled. ffmpeg_error e (job_index j) = None"
    using assms by blast
  then have "first_rejection (map (\<lambda>j. ffmpeg_error e (job_index j)) settled) = None"
    by (simp add: first_rejection_None)
  moreover have "filter (\<lambda>j. ffmpeg_error e (job_index j) = None) settled = settled"
    using ok by (simp add: filter_id_conv)
  ultimately show ?thesis
    by (simp add: transcode_jobs_def Let_def settled_def jobs_def)
qed

lemma transcode_jobs_events:
  "events (snd (transcode_jobs e inputFile outputFolder ladder w)) =
     events w @ map (run_event inputFile) (map (new_job e outputFolder) (enumerate 0 ladder))"
  by (simp add: transcode_jobs_def Let_def split: option.splits)

section \<open>Facts about the publishing loop\<close>

lemma pin_count_PinFile [simp]:
  "pin_count (w\<lparr>events := events w @ [PinFile p]\<rparr>) = Suc (pin_count w)"
  by (simp add: pin_count_def)

lemma update_fresh: "k \<notin> fst ` set al \<Longrightarrow> AList.update k v al = al @ [(k, v)]"
  by (induction al) auto

lemma upload_all_failure:
  "i < length files \<Longrightarrow>
   \<forall>j<i. \<exists>c. pinFileToIPFS e (pin_count w + j) (snd (files ! j)) = Inr c \<Longrightarrow>
   pinFileToIPFS e (pin_count w + i) (snd (files ! i)) = Inl err \<Longrightarrow>
   upload_all e files cids w =
     (Inl err, w\<lparr>events := events w @ map (PinFile \<circ> snd) (take (Suc i) files)\<rparr>)"
proof (induction files arbitrary: i cids w)
  case Nil
  then show ?case by simp
next
  case (Cons entry rest)
  show ?case
  proof (cases i)
    case 0
    with Cons.prems show ?thesis by (simp add: uploadToPinata_def)
  next
    case (Suc i')
    let ?w' = "w\<lparr>events := events w @ [PinFile (snd entry)]\<rparr>"
    from Cons.prems(2) Suc obtain c where c: "pinFileToIPFS e (pin_count w) (snd entry) = Inr c"
      by fastforce
    have lt: "i' < length rest" using Cons.prems(1) Suc by simp
    have pre: "\<forall>j<i'. \<exists>c. pinFileToIPFS e (pin_count ?w' + j) (snd (rest ! j)) = Inr c"
    proof (intro allI impI)
      fix j assume "j < i'"
      then have "Suc j < i" using Suc by simp
      with Cons.prems(2) show "\<exists>c. pinFileToIPFS e (pin_count ?w' + j) (snd (rest ! j)) = Inr c"
        by fastforce
    qed
    have bad: "pinFileToIPFS e (pin_count ?w' + i') (snd (rest ! i')) = Inl err"
      using Cons.prems(3) Suc by simp
    from Cons.IH [OF lt pre bad] c Suc show ?thesis
      by (simp add: uploadToPinata_def)
  qed
qed

lemma upload_all_success:
  "\<forall>j<length files. \<exists>c. pinFileToIPFS e (pin_count w + j) (snd (files ! j)) = Inr c \<Longrightarrow>
   distinct (map fst files) \<Longrightarrow> fst ` set cids \<inter> fst ` set files = {} \<Longrightarrow>
   \<exists>cs. length cs = length files
      \<and> upload_all e files cids w =
          (Inr (cids @ zip (map fst files) cs),
           w\<lparr>events := events w @ map (PinFile \<circ> snd) files\<rparr>)
      \<and> (\<forall>j<length files. pinFileToIPFS e (pin_count w + j) (snd (files ! j)) = Inr (cs ! j))"
proof (induction files arbitrary: cids w)
  case Nil
  then show ?case by simp
next
  case (Cons entry rest)
  let ?w' = "w\<lparr>events := events w @ [PinFile (snd entry)]\<rparr>"
  from Cons.prems(1) obtain c where c: "pinFileToIPFS e (pin_count w) (snd entry) = Inr c"
    by fastforce
  have fresh: "fst entry \<notin> fst ` set cids" using Cons.prems(3) by auto
  have ok: "\<forall>j<length rest. \<exists>c. pinFileToIPFS e (pin_count ?w' + j) (snd (rest ! j)) = Inr c"
  proof (intro allI impI)
    fix j assume "j < length rest"
    then have "Suc j < length (entry # rest)" by simp
    with Cons.prems(1) show "\<exists>c. pinFileToIPFS e (pin_count ?w' + j) (snd (rest ! j)) = Inr c"
      by fastforce
  qed
  have dist: "distinct (map fst rest)" using Cons.prems(2) by simp
  have disj: "fst ` set (cids @ [(fst entry, c)]) \<inter> fst ` set rest = {}"
    using Cons.prems(2,3) by auto
  from Cons.IH [OF ok dist disj] obtain cs where cs: "length cs = length rest"
    "upload_all e rest (cids @ [(fst entry, c)]) ?w' =
       (Inr ((cids @ [(fst entry, c)]) @ zip (map fst rest) cs),
        ?w'\<lparr>events := events ?w' @ map (PinFile \<circ> snd) rest\<rparr>)"
    "\<forall>j<length rest. pinFileToIPFS e (pin_count ?w' + j) (snd (rest ! j)) = Inr (cs ! j)"
    by blast
  have all: "\<forall>j<length (entry # rest).
      pinFileToIPFS e (pin_count w + j) (snd ((entry # rest) ! j)) = Inr ((c # cs) ! j)"
  proof (intro allI impI)
    fix j assume j: "j < length (entry # rest)"
    show "pinFileToIPFS e (pin_count w + j) (snd ((entry # rest) ! j)) = Inr ((c # cs) ! j)"
    proof (cases j)
      case 0
      with c show ?thesis by simp
    next
      case (Suc j')
      with j cs(3) show ?thesis by simp
    qed
  qed
  have "upload_all e (entry # rest) cids w =
          (Inr (cids @ zip (map fst (entry # rest)) (c # cs)),
           w\<lparr>events := events w @ map (PinFile \<circ> snd) (entry # rest)\<rparr>)"
    using c cs(2) fresh by (simp add: uploadToPinata_def update_fresh)
  with cs(1) all show ?case
    by (intro exI [of _ "c # cs"]) simp
qed

text \<open>
  A run without failure: every file is posted, in the order of the list; the names of the
  files are added to the keys of the mapping, and a name is mapped to the identifier that
  the POST of its (last) file returned.
\<close>

lemma upload_all_complete:
  "\<forall>j<length files. \<exists>c. pinFileToIPFS e (pin_count w + j) (snd (files ! j)) = Inr c \<Longrightarrow>
   \<exists>m. upload_all e files cids w =
          (Inr m, w\<lparr>events := events w @ map (PinFile \<circ> snd) files\<rparr>)
      \<and> fst ` set m = fst ` set cids \<union> fst ` set files
      \<and> (\<forall>j<length files. \<exists>c. pinFileToIPFS e (pin_count w + j) (snd (files ! j)) = Inr c
             \<and> (fst (files ! j) \<notin> fst ` set (drop (Suc j) files) \<longrightarrow> map_of m (fst (files ! j)) = Some c))"
proof (induction files arbitrary: cids w)
  case Nil
  then show ?case by simp
next
  case (Cons entry rest)
  let ?w' = "w\<lparr>events := events w @ [PinFile (snd entry)]\<rparr>"
  from Cons.prems obtain c where c: "pinFileToIPFS e (pin_count w) (snd entry) = Inr c"
    by fastforce
  let ?cids' = "AList.update (fst entry) c cids"
  have ok: "\<forall>j<length rest. \<exists>c. pinFileToIPFS e (pin_count ?w' + j) (snd (rest ! j)) = Inr c"
  proof (intro allI impI)
    fix j assume "j < length rest"
    then have "Suc j < length (entry # rest)" by simp
    with Cons.prems show "\<exists>c. pinFileToIPFS e (pin_count ?w' + j) (snd (rest ! j)) = Inr c"
      by fastforce
  qed
  from Cons.IH [OF ok, of ?cids'] obtain m where m:
    "upload_all e rest ?cids' ?w' =
       (Inr m, ?w'\<lparr>events := events ?w' @ map (PinFile \<circ> snd) rest\<rparr>)"
    "fst ` set m = fst ` set ?cids' \<union> fst ` set rest"
    "\<forall>j<length rest. \<exists>c. pinFileToIPFS e (pin_count ?w' + j) (snd (rest ! j)) = Inr c
        \<and> (fst (rest ! j) \<notin> fst ` set (drop (Suc j) rest) \<longrightarrow> map_of m (fst (rest ! j)) = Some c)"
    by blast
  have run: "upload_all e (entry # rest) cids w =
      (Inr m, w\<lparr>events := events w @ map (PinFile \<circ> snd) (entry # rest)\<rparr>)"
    using c m(1) by (simp add: uploadToPinata_def)
  have keys: "fst ` set m = fst ` set cids \<union> fst ` set (entry # rest)"
    using m(2) by (auto simp add: dom_update)
  have untouched: "map_of m k = map_of cids' k"
    if "k \<notin> fst ` set files'"
      and "\<forall>j<length files'. \<exists>c. pinFileToIPFS e (pin_count v + j) (snd (files' ! j)) = Inr c"
      and "upload_all e files' cids' v = (Inr m, v')"
    for k files' cids' v v' m
    using that
  proof (induction files' arbitrary: cids' v)
    case Nil
    then show ?case by simp
  next
    case (Cons a as)
    let ?v = "v\<lparr>events := events v @ [PinFile (snd a)]\<rparr>"
    from Cons.prems(2) obtain d where d: "pinFileToIPFS e (pin_count v) (snd a) = Inr d"
      by fastforce
    have rest_ok: "\<forall>j<length as. \<exists>c. pinFileToIPFS e (pin_count ?v + j) (snd (as ! j)) = Inr c"
    proof (intro allI impI)
      fix j assume "j < length as"
      then have "Suc j < length (a # as)" by simp
      with Cons.prems(2) show "\<exists>c. pinFileToIPFS e (pin_count ?v + j) (snd (as ! j)) = Inr c"
        by fastforce
    qed
    from Cons.prems(3) d have "upload_all e as (AList.update (fst a) d cids') ?v = (Inr m, v')"
      by (simp add: uploadToPinata_def)
    with Cons.IH [OF _ rest_ok, of "AList.update (fst a) d cids'"] Cons.prems(1)
    have "map_of m k = map_of (AList.update (fst a) d cids') k" by simp
    with Cons.prems(1) show ?case by (simp add: update_conv')
  qed
  have vals: "\<forall>j<length (entry # rest).
      \<exists>c. pinFileToIPFS e (pin_count w + j) (snd ((entry # rest) ! j)) = Inr c
        \<and> (fst ((entry # rest) ! j) \<notin> fst ` set (drop (Suc j) (entry # rest)) \<longrightarrow>
              map_of m (fst ((entry # rest) ! j)) = Some c)"
  proof (intro allI impI)
    fix j assume j: "j < length (entry # rest)"
    show "\<exists>c. pinFileToIPFS e (pin_count w + j) (snd ((entry # rest) ! j)) = Inr c
        \<and> (fst ((entry # rest) ! j) \<notin> fst ` set (drop (Suc j) (entry # rest)) \<longrightarrow>
              map_of m (fst ((entry # rest) ! j)) = Some c)"
    proof (cases j)
      case 0
      have "map_of m (fst entry) = Some c" if "fst entry \<notin> fst ` set rest"
        using untouched [OF that ok m(1)] by (simp add: update_conv')
      with c 0 show ?thesis by simp
    next
      case (Suc j')
      with j m(3) show ?thesis by simp
    qed
  qed
  from run keys vals show ?case by blast
qed

lemma upload_all_frame:
  "fs (snd (upload_all e files cids w)) = fs w
   \<and> (\<exists>n \<le> length files. events (snd (upload_all e files cids w)) =
         events w @ map (PinFile \<circ> snd) (take n files))"
proof (induction files arbitrary: cids w)
  case Nil
  then show ?case by simp
next
  case (Cons entry rest)
  let ?w' = "w\<lparr>events := events w @ [PinFile (snd entry)]\<rparr>"
  show ?case
  proof (cases "pinFileToIPFS e (pin_count w) (snd entry)")
    case (Inl err)
    then have "upload_all e (entry # rest) cids w = (Inl err, ?w')"
      by (simp add: uploadToPinata_def)
    then show ?thesis by (auto intro: exI [of _ "Suc 0"])
  next
    case (Inr c)
    then have eq: "upload_all e (entry # rest) cids w =
        upload_all e rest (AList.update (fst entry) c cids) ?w'"
      by (simp add: uploadToPinata_def)
    from Cons.IH [of "AList.update (fst entry) c cids" ?w'] obtain n where
      n: "n \<le> length rest"
         "events (snd (upload_all e rest (AList.update (fst entry) c cids) ?w')) =
            events ?w' @ map (PinFile \<circ> snd) (take n rest)"
      and f: "fs (snd (upload_all e rest (AList.update (fst entry) c cids) ?w')) = fs ?w'"
      by blast
    from n f eq show ?thesis by (auto intro: exI [of _ "Suc n"])
  qed
qed

lemma upload_all_unlink_error [simp]:
  "upload_all (e\<lparr>unlink_error := u\<rparr>) files cids w = upload_all e files cids w"
  by (induction files arbitrary: cids w) (simp_all add: uploadToPinata_def split: sum.splits)

section \<open>Facts about the handler\<close>

lemma getVideoResolution_world:
  "snd (getVideoResolution e f w) = w\<lparr>events := events w @ [Ffprobe f]\<rparr>"
  by (simp add: getVideoResolution_def Let_def split: sum.splits option.splits)

lemma getVideoResolution_unlink_error [simp]:
  "getVideoResolution (e\<lparr>unlink_error := u\<rparr>) f w = getVideoResolution e f w"
  by (simp add: getVideoResolution_def)

lemma new_job_unlink_error [simp]:
  "new_job (e\<lparr>unlink_error := u\<rparr>) folder = new_job e folder"
  by (simp add: fun_eq_iff new_job_def)

lemma transcode_jobs_unlink_error [simp]:
  "transcode_jobs (e\<lparr>unlink_error := u\<rparr>) f folder ladder w = transcode_jobs e f folder ladder w"
  by (simp add: transcode_jobs_def)

lemma mkdirSync_unlink_error [simp]:
  "mkdirSync (e\<lparr>unlink_error := u\<rparr>) p w = mkdirSync e p w"
  by (simp add: mkdirSync_def Let_def)

lemma transcodeVideo_unlink_error [simp]:
  "transcodeVideo (e\<lparr>unlink_error := u\<rparr>) f folder H w = transcodeVideo e f folder H w"
  by (simp add: transcodeVideo_def split: prod.split option.split)

lemma upload_try_unlink_error [simp]:
  "upload_try (e\<lparr>unlink_error := u\<rparr>) folder f w = upload_try e folder f w"
  by (simp add: upload_try_def split: prod.split sum.split)

lemma transcode_jobs_fs: "fs w \<subseteq> fs (snd (transcode_jobs e f folder ladder w))"
  by (simp add: transcode_jobs_def Let_def split: option.splits)

lemma not_pin_not_unlink: "is_mkdir ev \<or> is_ffmpeg ev \<Longrightarrow> \<not> is_pin ev \<and> \<not> is_unlink ev"
  by (cases ev) auto

lemma dirname_path_join:
  assumes "CHR ''/'' \<notin> set segment"
  shows "dirname (path_join dir segment) = dir"
proof -
  have "dropWhile (\<lambda>c. c \<noteq> CHR ''/'') (rev segment @ CHR ''/'' # rev dir) = CHR ''/'' # rev dir"
    using assms by (auto simp add: dropWhile_append3)
  then show ?thesis by (simp add: dirname_def path_join_def)
qed

text \<open>When the folder exists or can be created, \<^verbatim>\<open>transcodeVideo\<close> reaches the jobs.\<close>

lemma transcodeVideo_jobs:
  assumes "folder \<in> fs w \<or> (dirname folder \<in> fs w \<and> mkdir_error e = None)"
  shows "transcodeVideo e f folder H w =
     transcode_jobs e f folder (availableResolutions H)
       (if folder \<in> fs w then w
        else w\<lparr>events := events w @ [Mkdir folder], fs := insert folder (fs w)\<rparr>)"
  using assms by (auto simp add: transcodeVideo_def mkdirSync_def Let_def)

text \<open>
  Whatever happens, \<^verbatim>\<open>transcodeVideo\<close> removes no path and only adds calls of
  \<^verbatim>\<open>fs.mkdirSync\<close> and ffmpeg runs, the latter only for a ladder that is not empty.
\<close>

lemma transcodeVideo_frame:
  "fs w \<subseteq> fs (snd (transcodeVideo e f folder H w))
   \<and> (\<exists>evs. events (snd (transcodeVideo e f folder H w)) = events w @ evs
         \<and> (\<forall>ev \<in> set evs. is_mkdir ev \<or> is_ffmpeg ev)
         \<and> (availableResolutions H = [] \<longrightarrow> (\<forall>ev \<in> set evs. is_mkdir ev)))"
proof -
  let ?jobs = "map (run_event f) (map (new_job e folder) (enumerate 0 (availableResolutions H)))"
  have run: "\<forall>ev \<in> set ?jobs. is_ffmpeg ev"
    by (auto simp add: run_event_def)
  have empty: "availableResolutions H = [] \<longrightarrow> ?jobs = []"
    by simp
  consider (there) "folder \<in> fs w"
    | (thrown) err where "folder \<notin> fs w" "fst (mkdirSync e folder w) = Some err"
    | (made) "folder \<notin> fs w" "fst (mkdirSync e folder w) = None"
    by (cases "fst (mkdirSync e folder w)") auto
  then show ?thesis
  proof cases
    case there
    then have "transcodeVideo e f folder H w =
        transcode_jobs e f folder (availableResolutions H) w"
      by (simp add: transcodeVideo_def)
    with transcode_jobs_fs [of w e f folder "availableResolutions H"]
      transcode_jobs_events [of e f folder "availableResolutions H" w] run empty
    show ?thesis by auto
  next
    case thrown
    then have "transcodeVideo e f folder H w =
        (Inl err, w\<lparr>events := events w @ [Mkdir folder]\<rparr>)"
      by (auto simp add: transcodeVideo_def mkdirSync_def Let_def split: if_splits option.splits)
    then show ?thesis by simp
  next
    case made
    let ?w = "w\<lparr>events := events w @ [Mkdir folder], fs := insert folder (fs w)\<rparr>"
    from made have "transcodeVideo e f folder H w =
        transcode_jobs e f folder (availableResolutions H) ?w"
      by (auto simp add: transcodeVideo_def mkdirSync_def Let_def split: if_splits option.splits)
    with transcode_jobs_fs [of ?w e f folder "availableResolutions H"]
      transcode_jobs_events [of e f folder "availableResolutions H" ?w] run empty
    show ?thesis by auto
  qed
qed

lemma upload_all_events_unlink:
  "filter is_unlink (events (snd (upload_all e files cids w))) = filter is_unlink (events w)"
proof -
  from upload_all_frame [of e files cids w] obtain n where
    "events (snd (upload_all e files cids w)) = events w @ map (PinFile \<circ> snd) (take n files)"
    by blast
  then show ?thesis by (simp add: filter_empty_conv)
qed

lemma upload_try_frame:
  "fs w \<subseteq> fs (snd (upload_try e folder f w))
   \<and> filter is_unlink (events (snd (upload_try e folder f w))) = filter is_unlink (events w)"
proof -
  obtain r1 w1 where p: "getVideoResolution e f w = (r1, w1)" by force
  then have w1: "w1 = w\<lparr>events := events w @ [Ffprobe f]\<rparr>"
    using getVideoResolution_world [of e f w] by simp
  show ?thesis
  proof (cases r1)
    case (Inl err)
    with p w1 show ?thesis by (simp add: upload_try_def)
  next
    case (Inr H)
    obtain r2 w2 where t: "transcodeVideo e f folder H w1 = (r2, w2)" by force
    from transcodeVideo_frame [of w1 e f folder H] t obtain evs where
      fs1: "fs w1 \<subseteq> fs w2" and evs: "events w2 = events w1 @ evs"
        "\<forall>ev \<in> set evs. is_mkdir ev \<or> is_ffmpeg ev"
      by auto
    have fs2: "fs w \<subseteq> fs w2" using fs1 w1 by simp
    have "filter is_unlink evs = []"
      using evs(2) not_pin_not_unlink by (auto simp add: filter_empty_conv)
    then have ev2: "filter is_unlink (events w2) = filter is_unlink (events w)"
      using evs(1) w1 by simp
    show ?thesis
    proof (cases r2)
      case (Inl err)
      with p t Inr fs2 ev2 show ?thesis by (simp add: upload_try_def)
    next
      case (Inr files)
      with p t \<open>r1 = Inr H\<close> have "upload_try e folder f w = upload_all e files [] w2"
        by (simp add: upload_try_def)
      with fs2 ev2 upload_all_frame [of e files "[]" w2] upload_all_events_unlink [of e files "[]" w2]
      show ?thesis by simp
    qed
  qed
qed

lemma upload_try_steps:
  assumes "getVideoResolution e f w0 = (Inr H, w1)"
      and "transcodeVideo e f folder H w1 = (Inr files, w)"
  shows "upload_try e folder f w0 = upload_all e files [] w"
  using assms by (simp add: upload_try_def)

lemma pin_count_after_transcode:
  assumes "getVideoResolution e f w0 = (r1, w1)" and "transcodeVideo e f folder H w1 = (r2, w2)"
  shows "pin_count w2 = pin_count w0"
proof -
  have "w1 = w0\<lparr>events := events w0 @ [Ffprobe f]\<rparr>"
    using getVideoResolution_world [of e f w0] assms(1) by simp
  moreover from transcodeVideo_frame [of w1 e f folder H] assms(2) obtain evs where
    "events w2 = events w1 @ evs" "\<forall>ev \<in> set evs. is_mkdir ev \<or> is_ffmpeg ev"
    by auto
  moreover from this(2) have "filter is_pin evs = []"
    using not_pin_not_unlink by (auto simp add: filter_empty_conv)
  ultimately show ?thesis
    by (simp add: pin_count_def)
qed

lemma getVideoResolution_Inr_iff:
  "fst (getVideoResolution e f w) = Inr h \<longleftrightarrow>
     (\<exists>streams videoStream. ffprobe e f = Inr streams
        \<and> find (\<lambda>s. codec_type s = Some ''video'') streams = Some videoStream
        \<and> height videoStream = Some h \<and> h \<noteq> 0)"
  by (auto simp add: getVideoResolution_def Let_def split: sum.splits option.splits)

lemma probe_failure_handler:
  assumes "fst (getVideoResolution e f w) = Inl err"
  shows "upload_handler outputDir e (Some f) w =
           (\<lparr>status = 500, body = ErrorBody ''Processing failed'' (message err)\<rparr>,
            cleanup e f (w\<lparr>events := events w @ [Ffprobe f]\<rparr>))"
proof -
  have "getVideoResolution e f w = (Inl err, w\<lparr>events := events w @ [Ffprobe f]\<rparr>)"
    using assms getVideoResolution_world [of e f w] by (simp add: prod_eq_iff)
  then show ?thesis
    by (simp add: upload_handler_def upload_try_def respond_def Let_def)
qed

section \<open>Facts about the output file names\<close>

lemma string_of_nat_digits: "set (string_of_nat n) \<subseteq> set ''0123456789''"
proof (induction n rule: string_of_nat.induct)
  case (1 n)
  have digit: "\<And>k. k < 10 \<Longrightarrow> ''0123456789'' ! k \<in> set ''0123456789''"
    by (rule nth_mem) simp
  show ?case
  proof (cases "n < 10")
    case True
    then show ?thesis
      using digit [of n] by (subst string_of_nat.simps) simp
  next
    case False
    have "n mod 10 < 10" by simp
    with False "1.IH" digit [of "n mod 10"] show ?thesis
      by (subst string_of_nat.simps) simp
  qed
qed

lemma no_underscore: "CHR ''_'' \<notin> set (string_of_nat n @ ''.mp4'')"
  using string_of_nat_digits [of n] by auto

lemma last_separator:
  assumes "c \<notin> set s1" and "c \<notin> set s2" and "n1 @ c # s1 = n2 @ c # s2"
  shows "n1 = n2"
proof -
  from assms(3) have "rev (n1 @ c # s1) = rev (n2 @ c # s2)" by simp
  then have eq: "rev s1 @ c # rev n1 = rev s2 @ c # rev n2" by simp
  have "dropWhile (\<lambda>x. x \<noteq> c) (rev s1 @ c # rev n1) = c # rev n1"
    using assms(1) by (auto simp add: dropWhile_append3)
  moreover have "dropWhile (\<lambda>x. x \<noteq> c) (rev s2 @ c # rev n2) = c # rev n2"
    using assms(2) by (auto simp add: dropWhile_append3)
  ultimately show ?thesis using eq by simp
qed

lemma outputFileName_inj:
  assumes "''video_'' @ n1 @ ''_'' @ string_of_nat t1 @ ''.mp4'' =
           ''video_'' @ n2 @ ''_'' @ string_of_nat t2 @ ''.mp4''"
  shows "n1 = n2"
proof -
  from assms have "n1 @ CHR ''_'' # (string_of_nat t1 @ ''.mp4'') =
      n2 @ CHR ''_'' # (string_of_nat t2 @ ''.mp4'')" by simp
  with no_underscore [of t1] no_underscore [of t2] show ?thesis
    by (rule last_separator)
qed

lemma distinct_outputFileName:
  assumes "distinct (map name ladder)"
  shows "distinct (map outputFileName (map (new_job e folder) (enumerate 0 ladder)))"
proof -
  have inj: "inj_on (\<lambda>ir. outputFileName (new_job e folder ir)) (set (enumerate 0 ladder))"
  proof (rule inj_onI)
    fix x y
    assume x: "x \<in> set (enumerate 0 ladder)" and y: "y \<in> set (enumerate 0 ladder)"
      and eq: "outputFileName (new_job e folder x) = outputFileName (new_job e folder y)"
    from eq have n: "name (snd x) = name (snd y)"
      by (simp only: new_job_sel) (rule outputFileName_inj)
    from x y have ix: "fst x < length ladder" "snd x = ladder ! fst x"
      and iy: "fst y < length ladder" "snd y = ladder ! fst y"
      by (auto simp: in_set_enumerate_eq)
    from n ix iy have "map name ladder ! fst x = map name ladder ! fst y" by simp
    moreover have "fst x < length (map name ladder)" "fst y < length (map name ladder)"
      using ix(1) iy(1) by simp_all
    ultimately have "fst x = fst y"
      using assms nth_eq_iff_index_eq by blast
    with ix(2) iy(2) show "x = y" by (simp add: prod_eq_iff)
  qed
  have "distinct (enumerate 0 ladder)" by (simp add: distinct_enumerate)
  with inj show ?thesis by (simp add: distinct_map comp_def)
qed

lemma transcode_jobs_files:
  assumes "distinct (map name ladder)" and "\<forall>i<length ladder. ffmpeg_error e i = None"
  shows "\<exists>files. fst (transcode_jobs e inputFile outputFolder ladder w) = Inr files
          \<and> length files = length ladder
          \<and> mset files =
              mset (map (\<lambda>ir. (''video_'' @ name (snd ir) @ ''_'' @ string_of_nat (now_job e (fst ir)) @ ''.mp4'',
                                path_join outputFolder
                                  (''video_'' @ name (snd ir) @ ''_'' @ string_of_nat (now_job e (fst ir)) @ ''.mp4'')))
                     (enumerate 0 ladder))
          \<and> distinct (map fst files)"
proof -
  define jobs where "jobs = map (new_job e outputFolder) (enumerate 0 ladder)"
  define files where "files = map (\<lambda>j. (outputFileName j, outputFilePath j))
      (sort_key (\<lambda>j. ffmpeg_finish e (job_index j)) jobs)"
  have res: "fst (transcode_jobs e inputFile outputFolder ladder w) = Inr files"
    unfolding files_def jobs_def using assms(2) by (rule transcode_jobs_success)
  have len: "length files = length ladder"
    by (simp add: files_def jobs_def)
  have "mset files = mset (map (\<lambda>j. (outputFileName j, outputFilePath j)) jobs)"
    by (simp add: files_def)
  also have "map (\<lambda>j. (outputFileName j, outputFilePath j)) jobs =
      map (\<lambda>ir. (''video_'' @ name (snd ir) @ ''_'' @ string_of_nat (now_job e (fst ir)) @ ''.mp4'',
                  path_join outputFolder
                    (''video_'' @ name (snd ir) @ ''_'' @ string_of_nat (now_job e (fst ir)) @ ''.mp4'')))
        (enumerate 0 ladder)"
    by (simp add: jobs_def comp_def)
  finally have per_entry: "mset files = mset (map (\<lambda>ir. (''video_'' @ name (snd ir) @ ''_'' @ string_of_nat (now_job e (fst ir)) @ ''.mp4'',
                  path_join outputFolder
                    (''video_'' @ name (snd ir) @ ''_'' @ string_of_nat (now_job e (fst ir)) @ ''.mp4'')))
        (enumerate 0 ladder))" .
  have "map fst files = map outputFileName (sort_key (\<lambda>j. ffmpeg_finish e (job_index j)) jobs)"
    by (simp add: files_def comp_def)
  moreover have "distinct (map outputFileName jobs)"
    unfolding jobs_def using assms(1) by (rule distinct_outputFileName)
  then have "distinct (map outputFileName (sort_key (\<lambda>j. ffmpeg_finish e (job_index j)) jobs))"
    by (metis distinct_map distinct_sort set_sort)
  ultimately have dist: "distinct (map fst files)" by simp
  from res len per_entry dist show ?thesis by blast
qed

lemma string_of_nat_nonempty: "string_of_nat n \<noteq> []"
  by (subst string_of_nat.simps) simp

lemma digit_char_inj:
  assumes "a < 10" and "b < 10" and "''0123456789'' ! a = ''0123456789'' ! b"
  shows "a = b"
proof -
  have "distinct ''0123456789''" by simp
  moreover have "a < length ''0123456789''" "b < length ''0123456789''"
    using assms(1,2) by simp_all
  ultimately show ?thesis using assms(3) nth_eq_iff_index_eq by blast
qed

lemma string_of_nat_inj: "string_of_nat m = string_of_nat n \<Longrightarrow> m = n"
proof (induction m arbitrary: n rule: string_of_nat.induct)
  case (1 m)
  show ?case
  proof (cases "m < 10")
    case small_m: True
    then have sm: "string_of_nat m = [''0123456789'' ! m]"
      by (subst string_of_nat.simps) simp
    show ?thesis
    proof (cases "n < 10")
      case True
      then have "string_of_nat n = [''0123456789'' ! n]"
        by (subst string_of_nat.simps) simp
      with sm "1.prems" have "''0123456789'' ! m = ''0123456789'' ! n" by simp
      with small_m True show ?thesis by (rule digit_char_inj)
    next
      case False
      then have "string_of_nat n = string_of_nat (n div 10) @ [''0123456789'' ! (n mod 10)]"
        by (subst string_of_nat.simps) simp
      with sm "1.prems" have "string_of_nat (n div 10) = []" by simp
      with string_of_nat_nonempty show ?thesis by blast
    qed
  next
    case big_m: False
    then have bm: "string_of_nat m = string_of_nat (m div 10) @ [''0123456789'' ! (m mod 10)]"
      by (subst string_of_nat.simps) simp
    show ?thesis
    proof (cases "n < 10")
      case True
      then have "string_of_nat n = [''0123456789'' ! n]"
        by (subst string_of_nat.simps) simp
      with bm "1.prems" have "string_of_nat (m div 10) = []" by simp
      with string_of_nat_nonempty show ?thesis by blast
    next
      case False
      then have "string_of_nat n = string_of_nat (n div 10) @ [''0123456789'' ! (n mod 10)]"
        by (subst string_of_nat.simps) simp
      with bm "1.prems" have front: "string_of_nat (m div 10) = string_of_nat (n div 10)"
        and units: "''0123456789'' ! (m mod 10) = ''0123456789'' ! (n mod 10)"
        by simp_all
      from "1.IH" [OF big_m front] have "m div 10 = n div 10" .
      moreover have "m mod 10 = n mod 10"
        using units by (intro digit_char_inj) simp_all
      ultimately show ?thesis by (metis div_mult_mod_eq)
    qed
  qed
qed

lemma first_separator:
  assumes "c \<notin> set s1" and "c \<notin> set s2" and "s1 @ c # r1 = s2 @ c # r2"
  shows "s1 = s2 \<and> r1 = r2"
proof -
  have "takeWhile (\<lambda>x. x \<noteq> c) (s1 @ c # r1) = s1"
    using assms(1) by (auto simp add: takeWhile_tail intro: takeWhile_eq_all_conv [THEN iffD2])
  moreover have "takeWhile (\<lambda>x. x \<noteq> c) (s2 @ c # r2) = s2"
    using assms(2) by (auto simp add: takeWhile_tail intro: takeWhile_eq_all_conv [THEN iffD2])
  ultimately have "s1 = s2" using assms(3) by simp
  with assms(3) show ?thesis by simp
qed

lemma no_slash: "CHR ''/'' \<notin> set (string_of_nat n)"
  using string_of_nat_digits [of n] by auto

text \<open>
  Two jobs for the same rendition, in two requests served with the same output root, have
  the same output path exactly when the two requests read the same \<^verbatim>\<open>Date.now()\<close> for
  the folder and the two jobs read the same \<^verbatim>\<open>Date.now()\<close> for the file name.
\<close>

lemma outputFilePath_collision:
  "outputFilePath (new_job e1 (path_join outputDir (string_of_nat (now_request e1))) (i1, r)) =
   outputFilePath (new_job e2 (path_join outputDir (string_of_nat (now_request e2))) (i2, r))
   \<longleftrightarrow> now_request e1 = now_request e2 \<and> now_job e1 i1 = now_job e2 i2"
proof
  assume "now_request e1 = now_request e2 \<and> now_job e1 i1 = now_job e2 i2"
  then show "outputFilePath (new_job e1 (path_join outputDir (string_of_nat (now_request e1))) (i1, r)) =
   outputFilePath (new_job e2 (path_join outputDir (string_of_nat (now_request e2))) (i2, r))"
    by simp
next
  let ?n1 = "''video_'' @ name r @ ''_'' @ string_of_nat (now_job e1 i1) @ ''.mp4''"
  let ?n2 = "''video_'' @ name r @ ''_'' @ string_of_nat (now_job e2 i2) @ ''.mp4''"
  assume "outputFilePath (new_job e1 (path_join outputDir (string_of_nat (now_request e1))) (i1, r)) =
   outputFilePath (new_job e2 (path_join outputDir (string_of_nat (now_request e2))) (i2, r))"
  then have "string_of_nat (now_request e1) @ CHR ''/'' # ?n1 =
      string_of_nat (now_request e2) @ CHR ''/'' # ?n2"
    by (simp add: path_join_def)
  with no_slash [of "now_request e1"] no_slash [of "now_request e2"]
  have "string_of_nat (now_request e1) = string_of_nat (now_request e2) \<and> ?n1 = ?n2"
    by (rule first_separator)
  then show "now_request e1 = now_request e2 \<and> now_job e1 i1 = now_job e2 i2"
    by (auto dest: string_of_nat_inj)
qed

lemma distinct_name_resolutions: "distinct (map name (availableResolutions H))"
  by (simp add: availableResolutions_cases resolutions_def)

text \<open>
  The folder of a request is held by the output root; when it exists, or the output root
  exists and \<^verbatim>\<open>fs.mkdirSync\<close> does not throw, \<^verbatim>\<open>transcodeVideo\<close> reaches the jobs.
\<close>

lemma dirname_request_folder:
  "dirname (path_join outputDir (string_of_nat n)) = outputDir"
  using no_slash [of n] by (rule dirname_path_join)

lemma request_folder_jobs:
  assumes probe: "getVideoResolution e f w0 = (Inr H, w1)"
      and folder: "path_join outputDir (string_of_nat (now_request e)) \<in> fs w0
                   \<or> (outputDir \<in> fs w0 \<and> mkdir_error e = None)"
  shows "\<exists>w'. transcodeVideo e f (path_join outputDir (string_of_nat (now_request e))) H w1 =
     transcode_jobs e f (path_join outputDir (string_of_nat (now_request e)))
       (availableResolutions H) w'"
proof -
  let ?folder = "path_join outputDir (string_of_nat (now_request e))"
  have "w1 = w0\<lparr>events := events w0 @ [Ffprobe f]\<rparr>"
    using getVideoResolution_world [of e f w0] probe by simp
  then have "fs w1 = fs w0" by simp
  with folder have "?folder \<in> fs w1 \<or> (dirname ?folder \<in> fs w1 \<and> mkdir_error e = None)"
    by (simp add: dirname_request_folder)
  from transcodeVideo_jobs [OF this] show ?thesis by blast
qed

section \<open>Evaluating the concrete request\<close>

lemma string_of_nat_examples:
  "string_of_nat 0 = ''0''" "string_of_nat 1 = ''1''" "string_of_nat 2 = ''2''"
  "string_of_nat 3 = ''3''" "string_of_nat 1000 = ''1000''" "string_of_nat 2000 = ''2000''"
  by (simp_all add: string_of_nat.simps)

lemma string_of_nat_Suc0:
  "string_of_nat (Suc 0) = ''1''"
  "string_of_nat (Suc (Suc 0)) = ''2''"
  "string_of_nat (Suc (Suc (Suc 0))) = ''3''"
  using string_of_nat_examples(2,3,4) by (simp_all add: numeral_2_eq_2 numeral_3_eq_3)

lemma enumerate_resolutions:
  "enumerate 0 resolutions =
     [(0, \<lparr>name = ''1080p'', size_wh = ''1920x1080'', bitrate = ''5000k''\<rparr>),
      (1, \<lparr>name = ''720p'', size_wh = ''1280x720'', bitrate = ''2500k''\<rparr>),
      (2, \<lparr>name = ''480p'', size_wh = ''854x480'', bitrate = ''1000k''\<rparr>),
      (3, \<lparr>name = ''360p'', size_wh = ''640x360'', bitrate = ''600k''\<rparr>)]"
  by (simp add: resolutions_def)

lemmas example_eval =
  upload_handler_def upload_try_def getVideoResolution_def transcodeVideo_def transcode_jobs_def
  availableResolutions_cases enumerate_resolutions new_job_def path_join_def run_event_def
  uploadToPinata_def pin_count_def respond_def cleanup_def mkdirSync_def dirname_def
  example_env_def example_streams_def example_world_def example_files_def
  example_world_encoded_def string_of_nat_examples string_of_nat_Suc0 Let_def

lemma example_probe:
  "getVideoResolution example_env ''uploads/a'' example_world =
     (Inr 1080, example_world\<lparr>events := [Ffprobe ''uploads/a'']\<rparr>)"
  by (simp add: example_eval)

lemma example_transcode:
  "transcodeVideo example_env ''uploads/a'' ''/srv/output/1000'' 1080
     (example_world\<lparr>events := [Ffprobe ''uploads/a'']\<rparr>) = (Inr example_files, example_world_encoded)"
  by (simp add: example_eval insert_commute del: set_filter)

section \<open>Properties of the pipeline\<close>



text \<open>
  C3. For every list of files and every outcome of the POSTs: the POSTs made are those of
  an initial part of the list, one per file, in the order of the list. When no POST fails,
  every file is posted, in order, and the loop returns a mapping whose keys are the names
  of the files, each name mapped to the identifier that the POST of its file returned.
  When the POST of the file at position \<open>i\<close> fails after those before it succeeded,
  exactly the files up to position \<open>i\<close> have been posted, in order, the loop ends with that
  error and no mapping, whatever it had collected; and when the list is the one that
  \<^verbatim>\<open>transcodeVideo\<close> returned, the handler answers 500 with that error's message and no
  \<^verbatim>\<open>files\<close>.
\<close>

theorem publisher_all_or_nothing:
  "(\<exists>n\<le>length files. events (snd (upload_all e files cids w)) =
       events w @ map (PinFile \<circ> snd) (take n files))
   \<and> ((\<forall>j<length files. \<exists>c. pinFileToIPFS e (pin_count w + j) (snd (files ! j)) = Inr c) \<longrightarrow>
        (\<exists>m. upload_all e files cids w =
               (Inr m, w\<lparr>events := events w @ map (PinFile \<circ> snd) files\<rparr>)
           \<and> fst ` set m = fst ` set cids \<union> fst ` set files
           \<and> (\<forall>j<length files. \<exists>c. pinFileToIPFS e (pin_count w + j) (snd (files ! j)) = Inr c
                 \<and> (fst (files ! j) \<notin> fst ` set (drop (Suc j) files) \<longrightarrow>
                       map_of m (fst (files ! j)) = Some c))))
   \<and> (i < length files
        \<and> (\<forall>j<i. \<exists>c. pinFileToIPFS e (pin_count w + j) (snd (files ! j)) = Inr c)
        \<and> pinFileToIPFS e (pin_count w + i) (snd (files ! i)) = Inl err \<longrightarrow>
        upload_all e files cids w =
          (Inl err, w\<lparr>events := events w @ map (PinFile \<circ> snd) (take (Suc i) files)\<rparr>)
        \<and> (\<forall>outputDir inputFile w0 w1 H.
              getVideoResolution e inputFile w0 = (Inr H, w1)
              \<and> transcodeVideo e inputFile (path_join outputDir (string_of_nat (now_request e))) H w1
                  = (Inr files, w)
              \<longrightarrow> fst (upload_handler outputDir e (Some inputFile) w0) =
                    \<lparr>status = 500, body = ErrorBody ''Processing failed'' (message err)\<rparr>))"
proof -
  have order: "\<exists>n\<le>length files. events (snd (upload_all e files cids w)) =
       events w @ map (PinFile \<circ> snd) (take n files)"
    using upload_all_frame [of e files cids w] by blast
  have complete: "\<exists>m. upload_all e files cids w =
               (Inr m, w\<lparr>events := events w @ map (PinFile \<circ> snd) files\<rparr>)
           \<and> fst ` set m = fst ` set cids \<union> fst ` set files
           \<and> (\<forall>j<length files. \<exists>c. pinFileToIPFS e (pin_count w + j) (snd (files ! j)) = Inr c
                 \<and> (fst (files ! j) \<notin> fst ` set (drop (Suc j) files) \<longrightarrow>
                       map_of m (fst (files ! j)) = Some c))"
    if "\<forall>j<length files. \<exists>c. pinFileToIPFS e (pin_count w + j) (snd (files ! j)) = Inr c"
    using that by (rule upload_all_complete)
  have aborted: "upload_all e files cids w =
          (Inl err, w\<lparr>events := events w @ map (PinFile \<circ> snd) (take (Suc i) files)\<rparr>)
        \<and> (\<forall>outputDir inputFile w0 w1 H.
              getVideoResolution e inputFile w0 = (Inr H, w1)
              \<and> transcodeVideo e inputFile (path_join outputDir (string_of_nat (now_request e))) H w1
                  = (Inr files, w)
              \<longrightarrow> fst (upload_handler outputDir e (Some inputFile) w0) =
                    \<lparr>status = 500, body = ErrorBody ''Processing failed'' (message err)\<rparr>)"
    if i: "i < length files"
      and before: "\<forall>j<i. \<exists>c. pinFileToIPFS e (pin_count w + j) (snd (files ! j)) = Inr c"
      and fails: "pinFileToIPFS e (pin_count w + i) (snd (files ! i)) = Inl err"
  proof -
    have loop: "\<And>cids. upload_all e files cids w =
           (Inl err, w\<lparr>events := events w @ map (PinFile \<circ> snd) (take (Suc i) files)\<rparr>)"
      using i before fails by (rule upload_all_failure)
    have "fst (upload_handler outputDir e (Some inputFile) w0) =
          \<lparr>status = 500, body = ErrorBody ''Processing failed'' (message err)\<rparr>"
      if "getVideoResolution e inputFile w0 = (Inr H, w1)"
        and "transcodeVideo e inputFile (path_join outputDir (string_of_nat (now_request e))) H w1
                 = (Inr files, w)"
      for outputDir inputFile w0 w1 H
      using upload_try_steps [OF that] loop [of "[]"]
      by (simp add: upload_handler_def Let_def respond_def)
    with loop show ?thesis by blast
  qed
  from order complete aborted show ?thesis by blast
qed

theorem publisher_all_or_nothing_witness:
  "upload_all example_env example_files [] example_world_encoded =
     ((Inr [(''video_360p_2000.mp4'', ''Qm0''), (''video_480p_2000.mp4'', ''Qm1''),
            (''video_720p_2000.mp4'', ''Qm2''), (''video_1080p_2000.mp4'', ''Qm3'')]),
      example_world_encoded\<lparr>events := events example_world_encoded @
           [PinFile ''/srv/output/1000/video_360p_2000.mp4'',
            PinFile ''/srv/output/1000/video_480p_2000.mp4'',
            PinFile ''/srv/output/1000/video_720p_2000.mp4'',
            PinFile ''/srv/output/1000/video_1080p_2000.mp4'']\<rparr>)
   \<and> 2 < length example_files
   \<and> pinFileToIPFS example_env_pin_fails (pin_count example_world_encoded + 2)
        (snd (example_files ! 2)) = Inl (JsError ''Request failed with status code 401'')
   \<and> upload_all example_env_pin_fails example_files [] example_world_encoded =
       (Inl (JsError ''Request failed with status code 401''),
        example_world_encoded\<lparr>events := events example_world_encoded @
           [PinFile ''/srv/output/1000/video_360p_2000.mp4'',
            PinFile ''/srv/output/1000/video_480p_2000.mp4'',
            PinFile ''/srv/output/1000/video_720p_2000.mp4'']\<rparr>)
   \<and> fst (upload_handler ''/srv/output'' example_env_pin_fails (Some ''uploads/a'') example_world) =
       \<lparr>status = 500,
        body = ErrorBody ''Processing failed'' (Some ''Request failed with status code 401'')\<rparr>"
proof -
  have all_ok: "\<forall>j<length example_files. \<exists>c. pinFileToIPFS example_env
      (pin_count example_world_encoded + j) (snd (example_files ! j)) = Inr c"
    by (simp add: example_env_def)
  from publisher_all_or_nothing [of example_files example_env "[]" example_world_encoded] all_ok
  obtain m where m: "upload_all example_env example_files [] example_world_encoded =
      (Inr m, example_world_encoded\<lparr>events := events example_world_encoded @
          map (PinFile \<circ> snd) example_files\<rparr>)"
    by blast
  have "fst (upload_all example_env example_files [] example_world_encoded) =
      Inr [(''video_360p_2000.mp4'', ''Qm0''), (''video_480p_2000.mp4'', ''Qm1''),
            (''video_720p_2000.mp4'', ''Qm2''), (''video_1080p_2000.mp4'', ''Qm3'')]"
    by (simp add: example_eval)
  with m have complete: "upload_all example_env example_files [] example_world_encoded =
     ((Inr [(''video_360p_2000.mp4'', ''Qm0''), (''video_480p_2000.mp4'', ''Qm1''),
            (''video_720p_2000.mp4'', ''Qm2''), (''video_1080p_2000.mp4'', ''Qm3'')]),
      example_world_encoded\<lparr>events := events example_world_encoded @
           [PinFile ''/srv/output/1000/video_360p_2000.mp4'',
            PinFile ''/srv/output/1000/video_480p_2000.mp4'',
            PinFile ''/srv/output/1000/video_720p_2000.mp4'',
            PinFile ''/srv/output/1000/video_1080p_2000.mp4'']\<rparr>)"
    by (simp add: example_files_def)
  have len: "2 < length example_files"
    by (simp add: example_files_def)
  have before: "\<forall>j<2. \<exists>c. pinFileToIPFS example_env_pin_fails (pin_count example_world_encoded + j)
      (snd (example_files ! j)) = Inr c"
    by (simp add: example_env_pin_fails_def example_env_def pin_count_def example_world_encoded_def)
  have fails: "pinFileToIPFS example_env_pin_fails (pin_count example_world_encoded + 2)
      (snd (example_files ! 2)) = Inl (JsError ''Request failed with status code 401'')"
    by (simp add: example_env_pin_fails_def example_env_def pin_count_def example_world_encoded_def)
  have probe: "getVideoResolution example_env_pin_fails ''uploads/a'' example_world =
      (Inr 1080, example_world\<lparr>events := [Ffprobe ''uploads/a'']\<rparr>)"
    by (simp add: example_env_pin_fails_def example_eval)
  have encode: "transcodeVideo example_env_pin_fails ''uploads/a''
      (path_join ''/srv/output'' (string_of_nat (now_request example_env_pin_fails))) 1080
      (example_world\<lparr>events := [Ffprobe ''uploads/a'']\<rparr>) = (Inr example_files, example_world_encoded)"
    by (simp add: example_env_pin_fails_def example_eval insert_commute del: set_filter)
  from publisher_all_or_nothing [of example_files example_env_pin_fails "[]" example_world_encoded 2
      "JsError ''Request failed with status code 401''"] len before fails
  have "upload_all example_env_pin_fails example_files [] example_world_encoded =
       (Inl (JsError ''Request failed with status code 401''),
        example_world_encoded\<lparr>events := events example_world_encoded @
          map (PinFile \<circ> snd) (take (Suc 2) example_files)\<rparr>)
     \<and> (\<forall>outputDir inputFile w0 w1 H.
              getVideoResolution example_env_pin_fails inputFile w0 = (Inr H, w1)
              \<and> transcodeVideo example_env_pin_fails inputFile
                   (path_join outputDir (string_of_nat (now_request example_env_pin_fails))) H w1
                  = (Inr example_files, example_world_encoded)
              \<longrightarrow> fst (upload_handler outputDir example_env_pin_fails (Some inputFile) w0) =
                    \<lparr>status = 500, body = ErrorBody ''Processing failed''
                       (message (JsError ''Request failed with status code 401''))\<rparr>)"
    by blast
  with probe encode have aborted:
    "upload_all example_env_pin_fails example_files [] example_world_encoded =
       (Inl (JsError ''Request failed with status code 401''),
        example_world_encoded\<lparr>events := events example_world_encoded @
          map (PinFile \<circ> snd) (take (Suc 2) example_files)\<rparr>)"
    "fst (upload_handler ''/srv/output'' example_env_pin_fails (Some ''uploads/a'') example_world) =
       \<lparr>status = 500, body = ErrorBody ''Processing failed''
          (message (JsError ''Request failed with status code 401''))\<rparr>"
    by blast+
  from complete len fails aborted show ?thesis
    by (simp add: example_files_def)
qed

text \<open>
  C4. For every request that carries a file which exists when the handler starts, and
  whatever the outcome of the stages: the response is the same whether the deletion of the
  upload fails or not; the deletion is attempted after everything the \<^verbatim>\<open>try\<close> block did,
  and exactly once; a failure of it is followed only by the line that logs it; and when
  it does not fail the file no longer exists afterwards.
\<close>

theorem cleanup_of_upload:
  assumes "inputFile \<in> fs w"
  shows "fst (upload_handler outputDir (e\<lparr>unlink_error := u\<rparr>) (Some inputFile) w) =
           fst (upload_handler outputDir e (Some inputFile) w)
       \<and> events (snd (upload_handler outputDir e (Some inputFile) w)) =
           events (snd (upload_try e (path_join outputDir (string_of_nat (now_request e))) inputFile w))
             @ Unlink inputFile # (case unlink_error e of None \<Rightarrow> [] | Some err \<Rightarrow> [CleanupError err])
       \<and> length (filter (\<lambda>ev. ev = Unlink inputFile) (events (snd (upload_handler outputDir e (Some inputFile) w)))) =
           Suc (length (filter (\<lambda>ev. ev = Unlink inputFile) (events w)))
       \<and> (unlink_error e = None \<longrightarrow> inputFile \<notin> fs (snd (upload_handler outputDir e (Some inputFile) w)))"
proof -
  let ?folder = "path_join outputDir (string_of_nat (now_request e))"
  let ?r = "upload_try e ?folder inputFile w"
  have inside: "inputFile \<in> fs (snd ?r)"
    using assms upload_try_frame [of w e ?folder inputFile] by blast
  have "filter is_unlink (events (snd ?r)) = filter is_unlink (events w)"
    using upload_try_frame [of w e ?folder inputFile] by blast
  then have "filter (\<lambda>ev. ev = Unlink inputFile) (filter is_unlink (events (snd ?r))) =
      filter (\<lambda>ev. ev = Unlink inputFile) (filter is_unlink (events w))" by simp
  moreover have "\<And>xs. filter (\<lambda>ev. ev = Unlink inputFile) (filter is_unlink xs) = filter (\<lambda>ev. ev = Unlink inputFile) xs"
    by (auto intro: filter_cong)
  ultimately have same: "filter (\<lambda>ev. ev = Unlink inputFile) (events (snd ?r)) =
      filter (\<lambda>ev. ev = Unlink inputFile) (events w)" by simp
  have resp: "fst (upload_handler outputDir (e\<lparr>unlink_error := u\<rparr>) (Some inputFile) w) =
           fst (upload_handler outputDir e (Some inputFile) w)"
    by (simp add: upload_handler_def Let_def)
  have ev: "events (snd (upload_handler outputDir e (Some inputFile) w)) =
      events (snd ?r) @ Unlink inputFile # (case unlink_error e of None \<Rightarrow> [] | Some err \<Rightarrow> [CleanupError err])"
    using inside by (simp add: upload_handler_def Let_def cleanup_def split: option.splits)
  have cnt: "length (filter (\<lambda>ev. ev = Unlink inputFile) (events (snd (upload_handler outputDir e (Some inputFile) w)))) =
           Suc (length (filter (\<lambda>ev. ev = Unlink inputFile) (events w)))"
    unfolding ev using same by (simp split: option.splits)
  have gone: "unlink_error e = None \<longrightarrow> inputFile \<notin> fs (snd (upload_handler outputDir e (Some inputFile) w))"
    using inside by (simp add: upload_handler_def Let_def cleanup_def)
  from resp ev cnt gone show ?thesis by blast
qed

theorem cleanup_of_upload_witness:
  "''uploads/a'' \<in> fs example_world
   \<and> fst (upload_handler ''/srv/output'' (example_env\<lparr>unlink_error := Some (JsError ''EPERM'')\<rparr>)
        (Some ''uploads/a'') example_world) =
      fst (upload_handler ''/srv/output'' example_env (Some ''uploads/a'') example_world)
   \<and> length (filter (\<lambda>ev. ev = Unlink ''uploads/a'')
        (events (snd (upload_handler ''/srv/output'' example_env (Some ''uploads/a'') example_world)))) = 1
   \<and> ''uploads/a'' \<notin> fs (snd (upload_handler ''/srv/output'' example_env (Some ''uploads/a'') example_world))"
proof -
  have there: "''uploads/a'' \<in> fs example_world"
    by (simp add: example_world_def)
  have ok: "unlink_error example_env = None"
    by (simp add: example_env_def)
  have none: "events example_world = []"
    by (simp add: example_world_def)
  note at_example = cleanup_of_upload [OF there, where outputDir = "''/srv/output''"
      and e = example_env and u = "Some (JsError ''EPERM'')"]
  have same: "fst (upload_handler ''/srv/output'' (example_env\<lparr>unlink_error := Some (JsError ''EPERM'')\<rparr>)
        (Some ''uploads/a'') example_world) =
      fst (upload_handler ''/srv/output'' example_env (Some ''uploads/a'') example_world)"
    using at_example by blast
  have once: "length (filter (\<lambda>ev. ev = Unlink ''uploads/a'')
        (events (snd (upload_handler ''/srv/output'' example_env (Some ''uploads/a'') example_world)))) =
      Suc (length (filter (\<lambda>ev. ev = Unlink ''uploads/a'') (events example_world)))"
    using at_example by blast
  have gone: "''uploads/a'' \<notin> fs (snd (upload_handler ''/srv/output'' example_env (Some ''uploads/a'') example_world))"
    using at_example ok by blast
  from there same once gone none show ?thesis by simp
qed



text \<open>
  C6. Two different requests (different uploads, different source heights) for which
  \<^verbatim>\<open>Date.now()\<close> reads the same values start their 720p jobs on the same output path.
\<close>

theorem cross_request_collision:
  "now_request example_env_720 = now_request example_env
   \<and> Ffmpeg ''uploads/a'' ''1280x720'' ''2500k'' ''/srv/output/1000/video_720p_2000.mp4''
       \<in> set (events (snd (upload_handler ''/srv/output'' example_env (Some ''uploads/a'') example_world)))
   \<and> Ffmpeg ''uploads/b'' ''1280x720'' ''2500k'' ''/srv/output/1000/video_720p_2000.mp4''
       \<in> set (events (snd (upload_handler ''/srv/output'' example_env_720 (Some ''uploads/b'') example_world)))"
  by (simp add: example_env_720_def example_eval resolutions_def)

text \<open>
  C7, amended. For every request whose probe yields a height below 360 (the probe yields
  no height 0: it fails on it) and whose folder exists or can be created (the output root
  exists and \<^verbatim>\<open>fs.mkdirSync\<close> does not throw): the ladder is empty, the handler answers 200
  with the message and an empty \<^verbatim>\<open>files\<close> object, and it starts no ffmpeg run and makes no
  POST.
\<close>

theorem empty_ladder_success:
  assumes "fst (getVideoResolution e inputFile w) = Inr H" and "H < 360"
      and "path_join outputDir (string_of_nat (now_request e)) \<in> fs w
           \<or> (outputDir \<in> fs w \<and> mkdir_error e = None)"
  shows "availableResolutions H = []
       \<and> fst (upload_handler outputDir e (Some inputFile) w) =
           \<lparr>status = 200, body = FilesBody ''Processing complete'' []\<rparr>
       \<and> filter is_ffmpeg (events (snd (upload_handler outputDir e (Some inputFile) w))) =
           filter is_ffmpeg (events w)
       \<and> filter is_pin (events (snd (upload_handler outputDir e (Some inputFile) w))) =
           filter is_pin (events w)"
proof -
  let ?folder = "path_join outputDir (string_of_nat (now_request e))"
  have ladder: "availableResolutions H = []"
    using assms(2) by (simp add: availableResolutions_cases)
  obtain w1 where p: "getVideoResolution e inputFile w = (Inr H, w1)"
    using assms(1) by (cases "getVideoResolution e inputFile w") simp
  then have w1: "w1 = w\<lparr>events := events w @ [Ffprobe inputFile]\<rparr>"
    using getVideoResolution_world [of e inputFile w] by simp
  from request_folder_jobs [OF p assms(3)] obtain w' where
    "transcodeVideo e inputFile ?folder H w1 = transcode_jobs e inputFile ?folder [] w'"
    using ladder by auto
  then obtain w2 where t: "transcodeVideo e inputFile ?folder H w1 = (Inr [], w2)"
    by (simp add: transcode_jobs_def Let_def)
  from transcodeVideo_frame [of w1 e inputFile ?folder H] t ladder obtain evs where
    evs: "events w2 = events w1 @ evs" "\<forall>ev \<in> set evs. is_mkdir ev"
    by auto
  have quiet: "filter is_ffmpeg evs = []" "filter is_pin evs = []"
  proof -
    have "\<not> is_ffmpeg ev \<and> \<not> is_pin ev" if "is_mkdir ev" for ev
      using that by (cases ev) auto
    with evs(2) show "filter is_ffmpeg evs = []" "filter is_pin evs = []"
      by (auto simp add: filter_empty_conv)
  qed
  have tried: "upload_try e ?folder inputFile w = (Inr [], w2)"
    using upload_try_steps [OF p t] by simp
  have resp: "fst (upload_handler outputDir e (Some inputFile) w) =
           \<lparr>status = 200, body = FilesBody ''Processing complete'' []\<rparr>"
    using tried by (simp add: upload_handler_def Let_def respond_def)
  have ev: "events (snd (upload_handler outputDir e (Some inputFile) w)) = events (cleanup e inputFile w2)"
    using tried by (simp add: upload_handler_def Let_def)
  have "filter is_ffmpeg (events (cleanup e inputFile w2)) = filter is_ffmpeg (events w)"
    using evs(1) quiet w1 by (simp add: cleanup_def split: option.splits)
  moreover have "filter is_pin (events (cleanup e inputFile w2)) = filter is_pin (events w)"
    using evs(1) quiet w1 by (simp add: cleanup_def split: option.splits)
  ultimately show ?thesis using ladder resp ev by simp
qed

theorem empty_ladder_success_witness:
  "fst (getVideoResolution example_env_small ''uploads/a'' example_world) = Inr 300
   \<and> (300 :: int) < 360
   \<and> ''/srv/output'' \<in> fs example_world \<and> mkdir_error example_env_small = None
   \<and> upload_handler ''/srv/output'' example_env_small (Some ''uploads/a'') example_world =
       (\<lparr>status = 200, body = FilesBody ''Processing complete'' []\<rparr>,
        \<lparr>fs = {''/srv/output'', ''uploads/b'', ''/srv/output/1000''},
         events = [Ffprobe ''uploads/a'', Mkdir ''/srv/output/1000'', Unlink ''uploads/a'']\<rparr>)"
  using empty_ladder_success [of example_env_small "''uploads/a''" example_world 300 "''/srv/output''"]
  by (auto simp add: example_env_small_def example_eval)

theorem empty_ladder_success_counterexample:
  "(0 :: int) < 360 \<and> availableResolutions 0 = []
   \<and> ffprobe example_env_zero_height ''uploads/a'' =
        Inr [\<lparr>codec_type = Some ''video'', height = Some 0\<rparr>]
   \<and> fst (upload_handler ''/srv/output'' example_env_zero_height (Some ''uploads/a'') example_world) =
       \<lparr>status = 500, body = ErrorBody ''Processing failed'' None\<rparr>
   \<and> fst (getVideoResolution example_env_small ''uploads/a'' example_world_no_root) = Inr 300
   \<and> upload_handler ''/srv/output'' example_env_small (Some ''uploads/a'') example_world_no_root =
       (\<lparr>status = 500, body = ErrorBody ''Processing failed''
           (Some (''ENOENT: no such file or directory, mkdir '' @ CHR 0x27 # ''/srv/output/1000'' @ [CHR 0x27]))\<rparr>,
        \<lparr>fs = {''uploads/b''},
         events = [Ffprobe ''uploads/a'', Mkdir ''/srv/output/1000'', Unlink ''uploads/a'']\<rparr>)"
  by (auto simp add: example_env_zero_height_def example_env_small_def example_world_no_root_def
      no_resolution_def example_eval)

text \<open>
  C8, amended. For every inspection result, the probe returns the height of the first
  stream whose type is \<^verbatim>\<open>video\<close> exactly when that height is present and not 0; it fails
  with the inspection's own error when the inspection call errors, and with the string
  \<^verbatim>\<open>Could not determine video resolution.\<close> when no video stream exists or when the first
  video stream has no height or the height 0. Every probe failure yields a response with
  status 500 and the category \<^verbatim>\<open>Processing failed\<close>, which carries the message of the
  error when the error is an \<^verbatim>\<open>Error\<close> object; the handler then creates no folder, starts
  no ffmpeg run, makes no POST and adds no path.
\<close>

theorem probe_failure_propagation:
  "(fst (getVideoResolution e f w) = Inr h \<longleftrightarrow>
      (\<exists>streams videoStream. ffprobe e f = Inr streams
         \<and> find (\<lambda>s. codec_type s = Some ''video'') streams = Some videoStream
         \<and> height videoStream = Some h \<and> h \<noteq> 0))
   \<and> (\<forall>err. ffprobe e f = Inl err \<longrightarrow> fst (getVideoResolution e f w) = Inl err)
   \<and> (\<forall>streams. ffprobe e f = Inr streams
         \<and> find (\<lambda>s. codec_type s = Some ''video'') streams = None
         \<longrightarrow> fst (getVideoResolution e f w) = Inl no_resolution)
   \<and> (\<forall>streams videoStream. ffprobe e f = Inr streams
         \<and> find (\<lambda>s. codec_type s = Some ''video'') streams = Some videoStream
         \<and> (height videoStream = None \<or> height videoStream = Some 0)
         \<longrightarrow> fst (getVideoResolution e f w) = Inl no_resolution)
   \<and> (\<forall>err. fst (getVideoResolution e f w) = Inl err \<longrightarrow>
         status (fst (upload_handler outputDir e (Some f) w)) = 500
         \<and> (\<exists>details. body (fst (upload_handler outputDir e (Some f) w)) =
               ErrorBody ''Processing failed'' details)
         \<and> (\<forall>m. err = JsError m \<longrightarrow>
               body (fst (upload_handler outputDir e (Some f) w)) =
                 ErrorBody ''Processing failed'' (Some m))
         \<and> filter is_mkdir (events (snd (upload_handler outputDir e (Some f) w))) =
             filter is_mkdir (events w)
         \<and> filter is_ffmpeg (events (snd (upload_handler outputDir e (Some f) w))) =
             filter is_ffmpeg (events w)
         \<and> filter is_pin (events (snd (upload_handler outputDir e (Some f) w))) =
             filter is_pin (events w)
         \<and> fs (snd (upload_handler outputDir e (Some f) w)) \<subseteq> fs w)"
proof -
  have returns: "fst (getVideoResolution e f w) = Inr h \<longleftrightarrow>
      (\<exists>streams videoStream. ffprobe e f = Inr streams
         \<and> find (\<lambda>s. codec_type s = Some ''video'') streams = Some videoStream
         \<and> height videoStream = Some h \<and> h \<noteq> 0)"
    by (rule getVideoResolution_Inr_iff)
  have call: "\<forall>err. ffprobe e f = Inl err \<longrightarrow> fst (getVideoResolution e f w) = Inl err"
    by (simp add: getVideoResolution_def)
  have none: "\<forall>streams. ffprobe e f = Inr streams
         \<and> find (\<lambda>s. codec_type s = Some ''video'') streams = None
         \<longrightarrow> fst (getVideoResolution e f w) = Inl no_resolution"
    by (simp add: getVideoResolution_def)
  have lacks: "\<forall>streams videoStream. ffprobe e f = Inr streams
         \<and> find (\<lambda>s. codec_type s = Some ''video'') streams = Some videoStream
         \<and> (height videoStream = None \<or> height videoStream = Some 0)
         \<longrightarrow> fst (getVideoResolution e f w) = Inl no_resolution"
    by (auto simp add: getVideoResolution_def)
  have answer: "status (fst (upload_handler outputDir e (Some f) w)) = 500
         \<and> (\<exists>details. body (fst (upload_handler outputDir e (Some f) w)) =
               ErrorBody ''Processing failed'' details)
         \<and> (\<forall>m. err = JsError m \<longrightarrow>
               body (fst (upload_handler outputDir e (Some f) w)) =
                 ErrorBody ''Processing failed'' (Some m))
         \<and> filter is_mkdir (events (snd (upload_handler outputDir e (Some f) w))) =
             filter is_mkdir (events w)
         \<and> filter is_ffmpeg (events (snd (upload_handler outputDir e (Some f) w))) =
             filter is_ffmpeg (events w)
         \<and> filter is_pin (events (snd (upload_handler outputDir e (Some f) w))) =
             filter is_pin (events w)
         \<and> fs (snd (upload_handler outputDir e (Some f) w)) \<subseteq> fs w"
    if "fst (getVideoResolution e f w) = Inl err" for err
    unfolding probe_failure_handler [OF that]
    by (auto simp add: cleanup_def split: option.splits)
  from returns call none lacks answer show ?thesis by blast
qed

theorem probe_failure_propagation_witness:
  "fst (getVideoResolution example_env ''uploads/a'' example_world) = Inr 1080
   \<and> ffprobe example_env_ffprobe_fails ''uploads/a'' = Inl (JsError ''ffprobe exited with code 1'')
   \<and> upload_handler ''/srv/output'' example_env_ffprobe_fails (Some ''uploads/a'') example_world =
       (\<lparr>status = 500, body = ErrorBody ''Processing failed'' (Some ''ffprobe exited with code 1'')\<rparr>,
        \<lparr>fs = {''/srv/output'', ''uploads/b''},
         events = [Ffprobe ''uploads/a'', Unlink ''uploads/a'']\<rparr>)"
proof -
  note at_example = probe_failure_propagation [of example_env_ffprobe_fails "''uploads/a''"
      example_world 1080 "''/srv/output''"]
  have fails: "ffprobe example_env_ffprobe_fails ''uploads/a'' = Inl (JsError ''ffprobe exited with code 1'')"
    by (simp add: example_env_ffprobe_fails_def)
  with at_example
  have "fst (getVideoResolution example_env_ffprobe_fails ''uploads/a'' example_world) =
      Inl (JsError ''ffprobe exited with code 1'')"
    by blast
  with at_example
  have "status (fst (upload_handler ''/srv/output'' example_env_ffprobe_fails (Some ''uploads/a'') example_world)) = 500"
    by blast
  moreover have "upload_handler ''/srv/output'' example_env_ffprobe_fails (Some ''uploads/a'') example_world =
       (\<lparr>status = 500, body = ErrorBody ''Processing failed'' (Some ''ffprobe exited with code 1'')\<rparr>,
        \<lparr>fs = {''/srv/output'', ''uploads/b''},
         events = [Ffprobe ''uploads/a'', Unlink ''uploads/a'']\<rparr>)"
    by (auto simp add: example_env_ffprobe_fails_def example_eval)
  ultimately show ?thesis using fails example_probe by simp
qed

theorem probe_failure_propagation_counterexample:
  "ffprobe example_env_zero_height ''uploads/a'' = Inr [\<lparr>codec_type = Some ''video'', height = Some 0\<rparr>]
   \<and> fst (getVideoResolution example_env_zero_height ''uploads/a'' example_world) =
       Inl (JsString ''Could not determine video resolution.'')
   \<and> fst (upload_handler ''/srv/output'' example_env_zero_height (Some ''uploads/a'') example_world) =
       \<lparr>status = 500, body = ErrorBody ''Processing failed'' None\<rparr>"
  by (simp add: example_env_zero_height_def no_resolution_def example_eval)

text \<open>
  C10. For every request without a file the handler answers 400 with the body
  \<^verbatim>\<open>{"error": "No file uploaded"}\<close> and leaves the world as it was: it calls no
  collaborator (no probe, no encode, no publish, no deletion) and changes no path.
\<close>

theorem missing_upload:
  "upload_handler outputDir e None w =
     (\<lparr>status = 400, body = ErrorBody ''No file uploaded'' None\<rparr>, w)"
  by (simp add: upload_handler_def)

theorem missing_upload_witness:
  "upload_handler ''/srv/output'' example_env None example_world =
     (\<lparr>status = 400, body = ErrorBody ''No file uploaded'' None\<rparr>, example_world)
   \<and> events (snd (upload_handler ''/srv/output'' example_env None example_world)) = []"
  using missing_upload [of "''/srv/output''" example_env example_world]
  by (simp add: example_world_def)

end
